theory Spec2Isabelle
  imports Complex_Main "HOL-Library.Char_ord" "HOL-Library.List_Lexorder"
    "HOL-Library.Product_Lexorder" "HOL-Library.Multiset"
begin

section \<open>Time\<close>

text \<open>
  Every timestamp of the program is a value returned by \<^verbatim>\<open>time.time()\<close>, a number of
  seconds. The model takes the value read by each call as an argument of the operation
  that reads it, and idealises the seconds as real numbers.
\<close>

type_synonym seconds = real

section \<open>The rate limiter (\<^verbatim>\<open>src/tools/cost_tracker/tracker.py\<close>, class RateLimiter)\<close>

text \<open>
  \<^verbatim>\<open>_requests\<close> is a \<^verbatim>\<open>defaultdict(list)\<close>: reading a key that is absent gives the
  empty list.
\<close>

record RateLimiter =
  max_requests :: int
  window_seconds :: int
  requests :: "string \<rightharpoonup> seconds list"

definition RateLimiter_init :: "int \<Rightarrow> int \<Rightarrow> RateLimiter" where
  "RateLimiter_init cap window =
     \<lparr>max_requests = cap, window_seconds = window, requests = Map.empty\<rparr>"

definition requests_of :: "RateLimiter \<Rightarrow> string \<Rightarrow> seconds list" where
  "requests_of rl user_id = (case requests rl user_id of None \<Rightarrow> [] | Some ts \<Rightarrow> ts)"

text \<open>\<^verbatim>\<open>check\<close>: prune, compare the count with the cap, append \<open>now\<close> when admitted.\<close>

definition check :: "seconds \<Rightarrow> string \<Rightarrow> RateLimiter \<Rightarrow> bool \<times> RateLimiter" where
  "check now user_id rl =
     (let window_start = now - real_of_int (window_seconds rl);
          kept = filter (\<lambda>t. t > window_start) (requests_of rl user_id)
      in if int (length kept) \<ge> max_requests rl
         then (False, rl\<lparr>requests := (requests rl)(user_id \<mapsto> kept)\<rparr>)
         else (True, rl\<lparr>requests := (requests rl)(user_id \<mapsto> kept @ [now])\<rparr>))"

definition remaining :: "seconds \<Rightarrow> string \<Rightarrow> RateLimiter \<Rightarrow> int \<times> RateLimiter" where
  "remaining now user_id rl =
     (let window_start = now - real_of_int (window_seconds rl);
          kept = filter (\<lambda>t. t > window_start) (requests_of rl user_id)
      in (max 0 (max_requests rl - int (length kept)),
          rl\<lparr>requests := (requests rl)(user_id \<mapsto> kept)\<rparr>))"

text \<open>
  A sequence of \<^verbatim>\<open>check\<close> calls, each with its key and the time it reads. The result
  logs every call with its answer, oldest first.
\<close>

fun run_checks ::
  "(string \<times> seconds) list \<Rightarrow> RateLimiter \<Rightarrow> (string \<times> seconds \<times> bool) list \<times> RateLimiter"
where
  "run_checks [] rl = ([], rl)"
| "run_checks ((k, t) # cs) rl =
     (let (ok, rl1) = check t k rl;
          (lg, rl2) = run_checks cs rl1
      in ((k, t, ok) # lg, rl2))"

text \<open>The times of the admitted calls of a log for one key.\<close>

definition admitted_times :: "string \<Rightarrow> (string \<times> seconds \<times> bool) list \<Rightarrow> seconds list" where
  "admitted_times k lg = map (\<lambda>(k', t, ok). t) (filter (\<lambda>(k', t, ok). k' = k \<and> ok) lg)"

section \<open>The circuit breaker (class CircuitBreaker)\<close>

text \<open>
  \<^verbatim>\<open>_state\<close> holds one of the strings \<^verbatim>\<open>"closed"\<close>, \<^verbatim>\<open>"open"\<close> and
  \<^verbatim>\<open>"half-open"\<close>; no other value is ever assigned.
\<close>

datatype breaker_state = Closed | Open | HalfOpen

record CircuitBreaker =
  threshold :: int
  timeout :: int
  failures :: int
  last_failure :: seconds
  state :: breaker_state

definition CircuitBreaker_init :: "int \<Rightarrow> int \<Rightarrow> CircuitBreaker" where
  "CircuitBreaker_init th tmo =
     \<lparr>threshold = th, timeout = tmo, failures = 0, last_failure = 0, state = Closed\<rparr>"

definition can_execute :: "seconds \<Rightarrow> CircuitBreaker \<Rightarrow> bool \<times> CircuitBreaker" where
  "can_execute now cb =
     (if state cb = Closed then (True, cb)
      else if state cb = Open then
        (if now - last_failure cb \<ge> real_of_int (timeout cb)
         then (True, cb\<lparr>state := HalfOpen\<rparr>)
         else (False, cb))
      else (True, cb))"

definition record_success :: "CircuitBreaker \<Rightarrow> CircuitBreaker" where
  "record_success cb = cb\<lparr>failures := 0, state := Closed\<rparr>"

definition record_failure :: "seconds \<Rightarrow> CircuitBreaker \<Rightarrow> CircuitBreaker" where
  "record_failure now cb =
     (let cb1 = cb\<lparr>failures := failures cb + 1, last_failure := now\<rparr>
      in if failures cb1 \<ge> threshold cb1 then cb1\<lparr>state := Open\<rparr> else cb1)"

text \<open>The three operations of a breaker, with the time read by those that read it.\<close>

datatype breaker_op = CanExecute seconds | RecordSuccess | RecordFailure seconds

fun breaker_step :: "breaker_op \<Rightarrow> CircuitBreaker \<Rightarrow> CircuitBreaker" where
  "breaker_step (CanExecute now) cb = snd (can_execute now cb)"
| "breaker_step RecordSuccess cb = record_success cb"
| "breaker_step (RecordFailure now) cb = record_failure now cb"

fun run_breaker :: "breaker_op list \<Rightarrow> CircuitBreaker \<Rightarrow> CircuitBreaker" where
  "run_breaker [] cb = cb"
| "run_breaker (x # xs) cb = run_breaker xs (breaker_step x cb)"

text \<open>Successive \<^verbatim>\<open>can_execute\<close> calls with nothing in between: the answers and the
  breaker left behind.\<close>

fun can_execute_all :: "seconds list \<Rightarrow> CircuitBreaker \<Rightarrow> bool list \<times> CircuitBreaker" where
  "can_execute_all [] cb = ([], cb)"
| "can_execute_all (t # ts) cb =
     (let (ok, cb1) = can_execute t cb;
          (oks, cb2) = can_execute_all ts cb1
      in (ok # oks, cb2))"

section \<open>Strings\<close>

text \<open>
  A Python string is a sequence of code points; the model writes it as a \<^typ>\<open>string\<close>
  whose characters are the code points below 256, so that \<^term>\<open>length\<close> is Python's
  \<^verbatim>\<open>len\<close>. \<^verbatim>\<open>str.strip()\<close> removes the white space of both ends; below 256 the
  white-space code points are 9 to 13, 28 to 32, 133 and 160.
\<close>

definition is_space :: "char \<Rightarrow> bool" where
  "is_space c =
     (let n = (of_char c :: nat)
      in (9 \<le> n \<and> n \<le> 13) \<or> (28 \<le> n \<and> n \<le> 32) \<or> n = 133 \<or> n = 160)"

definition strip :: "string \<Rightarrow> string" where
  "strip s = rev (dropWhile is_space (rev (dropWhile is_space s)))"

definition startswith :: "string \<Rightarrow> string \<Rightarrow> bool" where
  "startswith s p = (take (length p) s = p)"

section \<open>Requests, results and errors (\<^verbatim>\<open>src/tools/agent_researcher_tools/models.py\<close>)\<close>

text \<open>
  The exceptions an upstream call can raise. The retry policy re-attempts after a
  \<^verbatim>\<open>ConnectionError\<close> or a \<^verbatim>\<open>TimeoutError\<close> only; each carries the text that
  \<^verbatim>\<open>str(e)\<close> gives.
\<close>

datatype exn = ConnectionError string | TimeoutError string | OtherException string

fun exn_str :: "exn \<Rightarrow> string" where
  "exn_str (ConnectionError m) = m"
| "exn_str (TimeoutError m) = m"
| "exn_str (OtherException m) = m"

fun is_transient :: "exn \<Rightarrow> bool" where
  "is_transient (ConnectionError m) = True"
| "is_transient (TimeoutError m) = True"
| "is_transient (OtherException m) = False"

text \<open>
  What a gateway operation raises. \<open>ValidationError\<close> is the one of the request models,
  with the names of the fields that were refused; \<open>ResearchToolError\<close> carries its
  message and the exception it was raised from, when there is one.
\<close>

datatype error =
    ValidationError "string list"
  | ResearchToolError string "exn option"
  | RateLimitError string
  | CircuitOpenError string

datatype ResearchModel = MINI | PRO | AUTO

fun model_value :: "ResearchModel \<Rightarrow> string" where
  "model_value MINI = ''mini''"
| "model_value PRO = ''pro''"
| "model_value AUTO = ''auto''"

record Source =
  url :: string
  title :: string
  favicon :: "string option"

record ResearchResult =
  request_id :: string
  status :: string
  content :: string
  sources :: "Source list"
  model :: string
  cached :: bool

type_synonym json_object = "(string \<times> string) list"

record SearchResult =
  query :: string
  answer :: "string option"
  results :: "json_object list"
  response_time :: real
  cached :: bool

record ExtractResult =
  results :: "json_object list"
  failed_results :: "string list"

record ResearchRequest =
  query :: string
  model :: ResearchModel
  max_results :: int
  include_domains :: "string list"
  exclude_domains :: "string list"

record SearchRequest =
  query :: string
  search_depth :: string
  max_results :: int
  include_domains :: "string list"
  exclude_domains :: "string list"
  include_answer :: bool
  include_raw_content :: bool

record ExtractRequest =
  urls :: "string list"
  include_images :: bool

text \<open>The validator of \<^verbatim>\<open>query\<close>, the same in both request models: \<open>Inl\<close> is the
  \<^verbatim>\<open>ValueError\<close>.\<close>

definition query_not_empty :: "string \<Rightarrow> string + string" where
  "query_not_empty v =
     (if v = [] \<or> strip v = [] then Inl ''query cannot be empty''
      else if length v > 10000 then Inl ''query too long''
      else Inr (strip v))"

definition urls_valid :: "string list \<Rightarrow> string + string list" where
  "urls_valid v =
     (case find (\<lambda>u. \<not> (startswith u ''http://'' \<or> startswith u ''https://'')) v of
        Some u \<Rightarrow> Inl (''invalid URL: '' @ u)
      | None \<Rightarrow> Inr v)"

text \<open>
  Building a request model validates every field and raises one \<open>ValidationError\<close> that
  lists the fields refused, in the order of their declaration.
\<close>

definition ResearchRequest_new ::
  "string \<Rightarrow> ResearchModel \<Rightarrow> int \<Rightarrow> string list \<Rightarrow> string list \<Rightarrow> error + ResearchRequest"
where
  "ResearchRequest_new q m n inc exc =
     (let bad = (case query_not_empty q of Inl msg \<Rightarrow> [''query''] | Inr v \<Rightarrow> [])
                @ (if 1 \<le> n \<and> n \<le> 50 then [] else [''max_results''])
      in if bad \<noteq> [] then Inl (ValidationError bad)
         else Inr \<lparr>ResearchRequest.query = strip q, model = m, max_results = n,
                   include_domains = inc, exclude_domains = exc\<rparr>)"

definition SearchRequest_new ::
  "string \<Rightarrow> string \<Rightarrow> int \<Rightarrow> string list \<Rightarrow> string list \<Rightarrow> bool \<Rightarrow> bool \<Rightarrow> error + SearchRequest"
where
  "SearchRequest_new q depth n inc exc ans raw =
     (let bad = (case query_not_empty q of Inl msg \<Rightarrow> [''query''] | Inr v \<Rightarrow> [])
                @ (if depth = ''basic'' \<or> depth = ''advanced'' then [] else [''search_depth''])
                @ (if 1 \<le> n \<and> n \<le> 50 then [] else [''max_results''])
      in if bad \<noteq> [] then Inl (ValidationError bad)
         else Inr \<lparr>SearchRequest.query = strip q, search_depth = depth, max_results = n,
                   include_domains = inc, exclude_domains = exc,
                   include_answer = ans, include_raw_content = raw\<rparr>)"

definition ExtractRequest_new :: "string list \<Rightarrow> bool \<Rightarrow> error + ExtractRequest" where
  "ExtractRequest_new us imgs =
     (if \<not> (1 \<le> length us \<and> length us \<le> 20) then Inl (ValidationError [''urls''])
      else case urls_valid us of
             Inl msg \<Rightarrow> Inl (ValidationError [''urls''])
           | Inr v \<Rightarrow> Inr \<lparr>urls = v, include_images = imgs\<rparr>)"

text \<open>\<^verbatim>\<open>include_domains or []\<close>.\<close>

definition or_empty :: "'a list option \<Rightarrow> 'a list" where
  "or_empty v = (case v of None \<Rightarrow> [] | Some xs \<Rightarrow> xs)"

section \<open>The cache key (\<^verbatim>\<open>ResearchTool._cache_key\<close>)\<close>

text \<open>
  \<^verbatim>\<open>repr\<close> of a string, as CPython writes it: double quotes when the string has a single
  quote and no double quote, single quotes otherwise; the quote and the backslash are
  escaped, tab, newline and carriage return are written \<^verbatim>\<open>\t\<close>, \<^verbatim>\<open>\n\<close>,
  \<^verbatim>\<open>\r\<close>, and every other code point that is not printable is written \<^verbatim>\<open>\xNN\<close>.
\<close>

definition quote_of :: "string \<Rightarrow> char" where
  "quote_of s = (if CHR 0x27 \<in> set s \<and> CHR 0x22 \<notin> set s then CHR 0x22 else CHR 0x27)"

definition hex_digit :: "nat \<Rightarrow> char" where
  "hex_digit n = ''0123456789abcdef'' ! (n mod 16)"

definition is_printable :: "char \<Rightarrow> bool" where
  "is_printable c =
     (let n = (of_char c :: nat)
      in (32 \<le> n \<and> n < 127) \<or> (161 \<le> n \<and> n \<noteq> 173))"

definition repr_char :: "char \<Rightarrow> char \<Rightarrow> string" where
  "repr_char q c =
     (if c = q \<or> c = CHR 0x5C then [CHR 0x5C, c]
      else if c = CHR 0x09 then [CHR 0x5C, CHR ''t'']
      else if c = CHR 0x0A then [CHR 0x5C, CHR ''n'']
      else if c = CHR 0x0D then [CHR 0x5C, CHR ''r'']
      else if \<not> is_printable c
        then [CHR 0x5C, CHR ''x'', hex_digit (of_char c div 16), hex_digit (of_char c)]
      else [c])"

definition py_repr :: "string \<Rightarrow> string" where
  "py_repr s = (let q = quote_of s in [q] @ concat (map (repr_char q) s) @ [q])"

definition repr_item :: "string \<times> string \<Rightarrow> string" where
  "repr_item kv = ''('' @ py_repr (fst kv) @ '', '' @ py_repr (snd kv) @ '')''"

fun join_comma :: "string list \<Rightarrow> string" where
  "join_comma [] = []"
| "join_comma [x] = x"
| "join_comma (x # y # xs) = x @ '', '' @ join_comma (y # xs)"

definition repr_items :: "(string \<times> string) list \<Rightarrow> string" where
  "repr_items kvs = ''['' @ join_comma (map repr_item kvs) @ '']''"

text \<open>
  The string that is hashed: \<^verbatim>\<open>f"{prefix}:{sorted(kwargs.items())}"\<close>. The keyword
  arguments are the pairs of a dictionary, in the order they were passed; \<^verbatim>\<open>sorted\<close>
  orders the pairs as tuples, strings by code point.
\<close>

definition cache_key_data :: "string \<Rightarrow> (string \<times> string) list \<Rightarrow> string" where
  "cache_key_data prefix kwargs = prefix @ '':'' @ repr_items (sort kwargs)"

text \<open>
  \<^verbatim>\<open>hashlib.sha256(data.encode()).hexdigest()\<close> is a function of the library; the model
  takes it as the parameter \<open>sha256_hex\<close>.
\<close>

definition cache_key ::
  "(string \<Rightarrow> string) \<Rightarrow> string \<Rightarrow> (string \<times> string) list \<Rightarrow> string" where
  "cache_key sha256_hex prefix kwargs = sha256_hex (cache_key_data prefix kwargs)"

text \<open>The keys the two cached operations ask for.\<close>

definition research_cache_key :: "(string \<Rightarrow> string) \<Rightarrow> ResearchRequest \<Rightarrow> string" where
  "research_cache_key sha256_hex req =
     cache_key sha256_hex ''research''
       [(''query'', ResearchRequest.query req), (''model'', model_value (ResearchRequest.model req))]"

definition search_cache_key :: "(string \<Rightarrow> string) \<Rightarrow> SearchRequest \<Rightarrow> string" where
  "search_cache_key sha256_hex req =
     cache_key sha256_hex ''search''
       [(''query'', SearchRequest.query req), (''depth'', search_depth req)]"

section \<open>The usage tracker (\<^verbatim>\<open>src/tools/cost_tracker/usage.py\<close>)\<close>

record KeyUsage =
  usage :: int
  limit :: int
  search_usage :: int
  extract_usage :: int
  crawl_usage :: int
  map_usage :: int
  research_usage :: int

record AccountUsage =
  current_plan :: string
  plan_usage :: int
  plan_limit :: int
  paygo_usage :: int
  paygo_limit :: int
  search_usage :: int
  extract_usage :: int
  crawl_usage :: int
  map_usage :: int
  research_usage :: int

record TavilyUsage =
  key :: KeyUsage
  account :: AccountUsage




text \<open>
  The tracker holds the cached snapshot. \<open>remote_calls\<close> is not a field of the class: it
  counts the GET requests the tracker has sent, so that a theorem can say whether
  \<^verbatim>\<open>fetch\<close> sent one.
\<close>

record UsageTracker =
  api_key :: string
  cached_usage :: "TavilyUsage option"
  remote_calls :: nat

definition UsageTracker_init :: "string \<Rightarrow> UsageTracker" where
  "UsageTracker_init k = \<lparr>api_key = k, cached_usage = None, remote_calls = 0\<rparr>"


definition clear_cache :: "UsageTracker \<Rightarrow> UsageTracker" where
  "clear_cache ut = ut\<lparr>cached_usage := None\<rparr>"

text \<open>The invariant of the breaker: it is closed, or the failure count has reached the
  threshold.\<close>

definition breaker_inv :: "CircuitBreaker \<Rightarrow> bool" where
  "breaker_inv cb = (state cb = Closed \<or> failures cb \<ge> threshold cb)"

section \<open>The gateway (\<^verbatim>\<open>src/tools/agent_researcher_tools/research.py\<close>, class ResearchTool)\<close>

text \<open>
  The cache holds the results of \<^verbatim>\<open>research\<close> and of \<^verbatim>\<open>search\<close> in one
  dictionary. A hit sets the \<^verbatim>\<open>cached\<close> attribute of the object found, which is the
  object the dictionary holds.
\<close>

datatype payload = ResearchPayload ResearchResult | SearchPayload SearchResult

fun mark_cached :: "payload \<Rightarrow> payload" where
  "mark_cached (ResearchPayload r) = ResearchPayload (r\<lparr>ResearchResult.cached := True\<rparr>)"
| "mark_cached (SearchPayload r) = SearchPayload (r\<lparr>SearchResult.cached := True\<rparr>)"

fun cached_flag :: "payload \<Rightarrow> bool" where
  "cached_flag (ResearchPayload r) = ResearchResult.cached r"
| "cached_flag (SearchPayload r) = SearchResult.cached r"

record cache_entry =
  data :: payload
  ts :: seconds

text \<open>
  The calls a gateway operation makes, in their order. The list \<open>calls\<close> below is not a
  field of the class: it records them, so that a theorem can say that a call was or was
  not made.
\<close>

datatype event =
    CanExecuteCalled
  | LimiterChecked string
  | UpstreamAttempt
  | CacheStored string
  | UsageCacheCleared
  | SuccessRecorded
  | FailureRecorded

record ResearchTool =
  circuit_breaker :: CircuitBreaker
  rate_limiter :: RateLimiter
  usage_tracker :: UsageTracker
  cache :: "string \<rightharpoonup> cache_entry"
  calls :: "event list"

text \<open>
  The times one operation reads: in \<^verbatim>\<open>can_execute\<close>, in \<^verbatim>\<open>check\<close>, in
  \<^verbatim>\<open>_get_cached\<close>, and once the upstream call is over (in \<^verbatim>\<open>_set_cached\<close> after a
  success, in \<^verbatim>\<open>record_failure\<close> after a failure).
\<close>

record clock =
  t_breaker :: seconds
  t_limiter :: seconds
  t_lookup :: seconds
  t_done :: seconds

definition get_cached :: "seconds \<Rightarrow> string \<Rightarrow> ResearchTool \<Rightarrow> payload option" where
  "get_cached now ck gw =
     (case cache gw ck of
        None \<Rightarrow> None
      | Some entry \<Rightarrow> if now - ts entry < 3600 then Some (data entry) else None)"

definition set_cached :: "seconds \<Rightarrow> string \<Rightarrow> payload \<Rightarrow> ResearchTool \<Rightarrow> ResearchTool" where
  "set_cached now ck d gw =
     gw\<lparr>cache := (cache gw)(ck \<mapsto> \<lparr>data = d, ts = now\<rparr>), calls := calls gw @ [CacheStored ck]\<rparr>"

text \<open>\<^verbatim>\<open>cached.cached = True\<close> on the object held under the key.\<close>

definition mark_entry :: "string \<Rightarrow> ResearchTool \<Rightarrow> ResearchTool" where
  "mark_entry ck gw =
     (case cache gw ck of
        None \<Rightarrow> gw
      | Some entry \<Rightarrow> gw\<lparr>cache := (cache gw)(ck \<mapsto> entry\<lparr>data := mark_cached (data entry)\<rparr>)\<rparr>)"

definition check_limits :: "clock \<Rightarrow> string \<Rightarrow> ResearchTool \<Rightarrow> (error + unit) \<times> ResearchTool" where
  "check_limits clk user_id gw =
     (let (ok, cb) = can_execute (t_breaker clk) (circuit_breaker gw);
          gw1 = gw\<lparr>circuit_breaker := cb, calls := calls gw @ [CanExecuteCalled]\<rparr>
      in if \<not> ok then (Inl (CircuitOpenError ''Service temporarily unavailable''), gw1)
         else let (ok2, rl) = check (t_limiter clk) user_id (rate_limiter gw1);
                  gw2 = gw1\<lparr>rate_limiter := rl, calls := calls gw1 @ [LimiterChecked user_id]\<rparr>
              in if \<not> ok2
                 then (Inl (RateLimitError (''Rate limit exceeded for user '' @ user_id)), gw2)
                 else (Inr (), gw2))"

definition gw_clear_cache :: "ResearchTool \<Rightarrow> ResearchTool" where
  "gw_clear_cache gw =
     gw\<lparr>usage_tracker := clear_cache (usage_tracker gw), calls := calls gw @ [UsageCacheCleared]\<rparr>"

definition gw_record_success :: "ResearchTool \<Rightarrow> ResearchTool" where
  "gw_record_success gw =
     gw\<lparr>circuit_breaker := record_success (circuit_breaker gw),
        calls := calls gw @ [SuccessRecorded]\<rparr>"

definition gw_record_failure :: "seconds \<Rightarrow> ResearchTool \<Rightarrow> ResearchTool" where
  "gw_record_failure now gw =
     gw\<lparr>circuit_breaker := record_failure now (circuit_breaker gw),
        calls := calls gw @ [FailureRecorded]\<rparr>"

definition log_attempts :: "nat \<Rightarrow> ResearchTool \<Rightarrow> ResearchTool" where
  "log_attempts n gw = gw\<lparr>calls := calls gw @ replicate n UpstreamAttempt\<rparr>"


subsection \<open>The retry policy\<close>

text \<open>
  \<^verbatim>\<open>@retry(stop=stop_after_attempt(3), retry=retry_if_exception_type((ConnectionError,
  TimeoutError)), reraise=True)\<close>: attempt \<open>n\<close> (from 1) runs the call; a transient
  exception before the third attempt leads to the next attempt, any other outcome is the
  outcome of the whole. \<open>attempt n\<close> is what the \<open>n\<close>-th run of the wrapped function
  gives. The result comes with the number of attempts made.
\<close>

function retrying :: "nat \<Rightarrow> (nat \<Rightarrow> exn + 'a) \<Rightarrow> (exn + 'a) \<times> nat" where
  "retrying n attempt =
     (case attempt n of
        Inr r \<Rightarrow> (Inr r, n)
      | Inl e \<Rightarrow> if is_transient e \<and> n < 3 then retrying (Suc n) attempt else (Inl e, n))"
  by pat_completeness auto
termination
  by (relation "measure (\<lambda>(n, attempt). 3 - n)") auto

subsection \<open>What the upstream client returns\<close>

text \<open>
  One run of a \<^verbatim>\<open>_sync\<close> method either raises or gets the client's dictionaries,
  whose members are read with \<^verbatim>\<open>.get\<close> and a default.
\<close>

record research_data =
  rd_request_id :: "string option"
  rd_status :: "string option"
  rd_content :: "string option"
  rd_sources :: "Source list option"

record search_data =
  sd_query :: "string option"
  sd_answer :: "string option"
  sd_results :: "json_object list option"
  sd_response_time :: "real option"

record extract_data =
  xd_results :: "json_object list option"
  xd_failed_results :: "string list option"

definition dflt :: "'a \<Rightarrow> 'a option \<Rightarrow> 'a" where
  "dflt d v = (case v of None \<Rightarrow> d | Some x \<Rightarrow> x)"

definition research_result :: "ResearchRequest \<Rightarrow> research_data \<Rightarrow> ResearchResult" where
  "research_result req d =
     \<lparr>request_id = dflt [] (rd_request_id d), status = dflt ''unknown'' (rd_status d),
      content = dflt [] (rd_content d), sources = dflt [] (rd_sources d),
      model = model_value (ResearchRequest.model req), cached = False\<rparr>"

definition search_result :: "SearchRequest \<Rightarrow> search_data \<Rightarrow> SearchResult" where
  "search_result req d =
     \<lparr>SearchResult.query = dflt (SearchRequest.query req) (sd_query d), answer = sd_answer d,
      results = dflt [] (sd_results d), response_time = dflt 0 (sd_response_time d),
      cached = False\<rparr>"

definition extract_result :: "extract_data \<Rightarrow> ExtractResult" where
  "extract_result d =
     \<lparr>ExtractResult.results = dflt [] (xd_results d),
      failed_results = dflt [] (xd_failed_results d)\<rparr>"

definition research_sync ::
  "(nat \<Rightarrow> exn + research_data) \<Rightarrow> ResearchRequest \<Rightarrow> (exn + ResearchResult) \<times> nat" where
  "research_sync upstream req =
     retrying 1 (\<lambda>n. case upstream n of Inl e \<Rightarrow> Inl e | Inr d \<Rightarrow> Inr (research_result req d))"

definition search_sync ::
  "(nat \<Rightarrow> exn + search_data) \<Rightarrow> SearchRequest \<Rightarrow> (exn + SearchResult) \<times> nat" where
  "search_sync upstream req =
     retrying 1 (\<lambda>n. case upstream n of Inl e \<Rightarrow> Inl e | Inr d \<Rightarrow> Inr (search_result req d))"

definition extract_sync ::
  "(nat \<Rightarrow> exn + extract_data) \<Rightarrow> ExtractRequest \<Rightarrow> (exn + ExtractResult) \<times> nat" where
  "extract_sync upstream req =
     retrying 1 (\<lambda>n. case upstream n of Inl e \<Rightarrow> Inl e | Inr d \<Rightarrow> Inr (extract_result d))"

subsection \<open>The operations\<close>

text \<open>
  Each operation takes the times it reads and what the upstream gives (for the retried
  calls, by attempt), and returns what it returns or raises together with the gateway it
  leaves. Logging is left out; \<^verbatim>\<open>session_id\<close> is used for logging only. One operation
  runs from its start to its end with no other in between.
\<close>

definition research ::
  "(string \<Rightarrow> string) \<Rightarrow> clock \<Rightarrow> (nat \<Rightarrow> exn + research_data) \<Rightarrow>
   string \<Rightarrow> ResearchModel \<Rightarrow> int \<Rightarrow> string list option \<Rightarrow> string list option \<Rightarrow> string \<Rightarrow>
   ResearchTool \<Rightarrow> (error + payload) \<times> ResearchTool"
where
  "research sha256_hex clk upstream q m n inc exc user_id gw =
     (case ResearchRequest_new q m n (or_empty inc) (or_empty exc) of
        Inl e \<Rightarrow> (Inl e, gw)
      | Inr req \<Rightarrow>
          (case check_limits clk user_id gw of
             (Inl e, gw1) \<Rightarrow> (Inl e, gw1)
           | (Inr u, gw1) \<Rightarrow>
               (let ck = research_cache_key sha256_hex req
                in case get_cached (t_lookup clk) ck gw1 of
                     Some c \<Rightarrow> (Inr (mark_cached c), mark_entry ck gw1)
                   | None \<Rightarrow>
                       (case research_sync upstream req of
                          (Inr result, k) \<Rightarrow>
                            (Inr (ResearchPayload result),
                             gw_record_success (gw_clear_cache
                               (set_cached (t_done clk) ck (ResearchPayload result)
                                 (log_attempts k gw1))))
                        | (Inl e, k) \<Rightarrow>
                            (Inl (ResearchToolError (''Research failed: '' @ exn_str e) (Some e)),
                             gw_record_failure (t_done clk) (log_attempts k gw1))))))"

definition search ::
  "(string \<Rightarrow> string) \<Rightarrow> clock \<Rightarrow> (nat \<Rightarrow> exn + search_data) \<Rightarrow>
   string \<Rightarrow> string \<Rightarrow> int \<Rightarrow> string list option \<Rightarrow> string list option \<Rightarrow> bool \<Rightarrow> bool \<Rightarrow>
   string \<Rightarrow> ResearchTool \<Rightarrow> (error + payload) \<times> ResearchTool"
where
  "search sha256_hex clk upstream q depth n inc exc ans raw user_id gw =
     (case SearchRequest_new q depth n (or_empty inc) (or_empty exc) ans raw of
        Inl e \<Rightarrow> (Inl e, gw)
      | Inr req \<Rightarrow>
          (case check_limits clk user_id gw of
             (Inl e, gw1) \<Rightarrow> (Inl e, gw1)
           | (Inr u, gw1) \<Rightarrow>
               (let ck = search_cache_key sha256_hex req
                in case get_cached (t_lookup clk) ck gw1 of
                     Some c \<Rightarrow> (Inr (mark_cached c), mark_entry ck gw1)
                   | None \<Rightarrow>
                       (case search_sync upstream req of
                          (Inr result, k) \<Rightarrow>
                            (Inr (SearchPayload result),
                             gw_record_success (gw_clear_cache
                               (set_cached (t_done clk) ck (SearchPayload result)
                                 (log_attempts k gw1))))
                        | (Inl e, k) \<Rightarrow>
                            (Inl (ResearchToolError (''Search failed: '' @ exn_str e) (Some e)),
                             gw_record_failure (t_done clk) (log_attempts k gw1))))))"

definition extract_op ::
  "clock \<Rightarrow> (nat \<Rightarrow> exn + extract_data) \<Rightarrow> string list \<Rightarrow> bool \<Rightarrow> string \<Rightarrow>
   ResearchTool \<Rightarrow> (error + ExtractResult) \<times> ResearchTool"
where
  "extract_op clk upstream us imgs user_id gw =
     (case ExtractRequest_new us imgs of
        Inl e \<Rightarrow> (Inl e, gw)
      | Inr req \<Rightarrow>
          (case check_limits clk user_id gw of
             (Inl e, gw1) \<Rightarrow> (Inl e, gw1)
           | (Inr u, gw1) \<Rightarrow>
               (case extract_sync upstream req of
                  (Inr result, k) \<Rightarrow>
                    (Inr result, gw_record_success (gw_clear_cache (log_attempts k gw1)))
                | (Inl e, k) \<Rightarrow>
                    (Inl (ResearchToolError (''Extract failed: '' @ exn_str e) (Some e)),
                     gw_record_failure (t_done clk) (log_attempts k gw1)))))"

text \<open>(\<^verbatim>\<open>extract\<close> is written \<open>extract_op\<close>: the name is a keyword of Isabelle.)
  \<^verbatim>\<open>get_context\<close> and \<^verbatim>\<open>qna\<close> call the client once, with no retry.\<close>

definition get_context ::
  "clock \<Rightarrow> exn + string \<Rightarrow> string \<Rightarrow> int \<Rightarrow> string \<Rightarrow>
   ResearchTool \<Rightarrow> (error + string) \<times> ResearchTool"
where
  "get_context clk upstream q max_tokens user_id gw =
     (if q = [] \<or> strip q = [] then (Inl (ResearchToolError ''query cannot be empty'' None), gw)
      else case check_limits clk user_id gw of
             (Inl e, gw1) \<Rightarrow> (Inl e, gw1)
           | (Inr u, gw1) \<Rightarrow>
               (case upstream of
                  Inr result \<Rightarrow>
                    (Inr result, gw_record_success (gw_clear_cache (log_attempts 1 gw1)))
                | Inl e \<Rightarrow>
                    (Inl (ResearchToolError (''Get context failed: '' @ exn_str e) (Some e)),
                     gw_record_failure (t_done clk) (log_attempts 1 gw1))))"

definition qna ::
  "clock \<Rightarrow> exn + string \<Rightarrow> string \<Rightarrow> string \<Rightarrow>
   ResearchTool \<Rightarrow> (error + string) \<times> ResearchTool"
where
  "qna clk upstream q user_id gw =
     (if q = [] \<or> strip q = [] then (Inl (ResearchToolError ''query cannot be empty'' None), gw)
      else case check_limits clk user_id gw of
             (Inl e, gw1) \<Rightarrow> (Inl e, gw1)
           | (Inr u, gw1) \<Rightarrow>
               (case upstream of
                  Inr result \<Rightarrow>
                    (Inr result, gw_record_success (gw_clear_cache (log_attempts 1 gw1)))
                | Inl e \<Rightarrow>
                    (Inl (ResearchToolError (''QnA failed: '' @ exn_str e) (Some e)),
                     gw_record_failure (t_done clk) (log_attempts 1 gw1))))"

text \<open>
  \<^verbatim>\<open>research_stream\<close>, read to its end by the caller. The upstream either raises when
  the stream is opened, or delivers chunks and then ends or raises (an undecodable chunk
  raises as well). The result is the chunks passed on and the error raised, if any.
\<close>

definition research_stream ::
  "clock \<Rightarrow> exn + (string list \<times> exn option) \<Rightarrow> string \<Rightarrow> ResearchModel \<Rightarrow> string \<Rightarrow>
   ResearchTool \<Rightarrow> (string list \<times> error option) \<times> ResearchTool"
where
  "research_stream clk upstream q m user_id gw =
     (case ResearchRequest_new q m 10 [] [] of
        Inl e \<Rightarrow> (([], Some e), gw)
      | Inr req \<Rightarrow>
          (case check_limits clk user_id gw of
             (Inl e, gw1) \<Rightarrow> (([], Some e), gw1)
           | (Inr u, gw1) \<Rightarrow>
               (case upstream of
                  Inl e \<Rightarrow>
                    (([], Some (ResearchToolError (''Research stream failed: '' @ exn_str e) (Some e))),
                     gw_record_failure (t_done clk) (log_attempts 1 gw1))
                | Inr (chunks, None) \<Rightarrow>
                    ((chunks, None), gw_record_success (gw_clear_cache (log_attempts 1 gw1)))
                | Inr (chunks, Some e) \<Rightarrow>
                    ((chunks,
                      Some (ResearchToolError (''Research stream failed: '' @ exn_str e) (Some e))),
                     gw_record_failure (t_done clk) (log_attempts 1 gw1)))))"

subsection \<open>Construction\<close>

text \<open>
  \<^verbatim>\<open>__init__\<close>, for the first tool of the process: the limiter, the breaker and the
  tracker are made from the configuration (cap per minute, threshold, timeout, API key),
  the limiter's window is 60 seconds, and the cache is empty.
\<close>

definition ResearchTool_new :: "int \<Rightarrow> int \<Rightarrow> int \<Rightarrow> string \<Rightarrow> error + ResearchTool" where
  "ResearchTool_new cap th tmo tavily_api_key =
     (if tavily_api_key = [] then Inl (ResearchToolError ''TAVILY_API_KEY is required'' None)
      else Inr \<lparr>circuit_breaker = CircuitBreaker_init th tmo,
                rate_limiter = RateLimiter_init cap 60,
                usage_tracker = UsageTracker_init tavily_api_key,
                cache = Map.empty, calls = []\<rparr>)"

section \<open>Notions of the specification\<close>

text \<open>
  The specification's failure of an upstream call under the retry policy: a failure that
  is not transient, on the first attempt or after transient ones, or a transient failure
  on all three attempts.
\<close>

definition transient_failure :: "exn + 'a \<Rightarrow> bool" where
  "transient_failure r = (case r of Inl e \<Rightarrow> is_transient e | Inr v \<Rightarrow> False)"

definition other_failure :: "exn + 'a \<Rightarrow> bool" where
  "other_failure r = (case r of Inl e \<Rightarrow> \<not> is_transient e | Inr v \<Rightarrow> False)"

definition upstream_fails :: "(nat \<Rightarrow> exn + 'a) \<Rightarrow> bool" where
  "upstream_fails attempt =
     (other_failure (attempt 1)
      \<or> (transient_failure (attempt 1) \<and> other_failure (attempt 2))
      \<or> (transient_failure (attempt 1) \<and> transient_failure (attempt 2) \<and> other_failure (attempt 3))
      \<or> (transient_failure (attempt 1) \<and> transient_failure (attempt 2)
          \<and> transient_failure (attempt 3)))"

text \<open>
  What the failure path of an operation leaves, from the gateway \<open>gw1\<close> that passed the
  admission checks: \<^verbatim>\<open>record_failure\<close> applied once to the breaker, the cache, the
  limiter and the usage tracker as they were, and as calls one to three upstream attempts
  followed by one \<^verbatim>\<open>record_failure\<close>.
\<close>

definition failure_path :: "seconds \<Rightarrow> ResearchTool \<Rightarrow> ResearchTool \<Rightarrow> bool" where
  "failure_path now gw1 gw2 =
     (circuit_breaker gw2 = record_failure now (circuit_breaker gw1)
      \<and> cache gw2 = cache gw1
      \<and> rate_limiter gw2 = rate_limiter gw1
      \<and> usage_tracker gw2 = usage_tracker gw1
      \<and> (\<exists>k \<in> {1, 2, 3}. calls gw2 = calls gw1 @ replicate k UpstreamAttempt @ [FailureRecorded]))"

section \<open>A sample configuration\<close>

text \<open>A tool with cap 30, threshold 2 and timeout 5, and a clock whose reads are all \<open>t\<close>
  but the last, which is \<open>t + 1\<close>; the concrete instances below use them.\<close>

definition sample_tool :: ResearchTool where
  "sample_tool = projr (ResearchTool_new 30 2 5 ''tvly-key'')"

definition clock_at :: "seconds \<Rightarrow> clock" where
  "clock_at t = \<lparr>t_breaker = t, t_limiter = t, t_lookup = t, t_done = t + 1\<rparr>"

text \<open>An upstream that gives the same outcome at every attempt, a research response, a
  usage document, and the sample tool after a first successful \<^verbatim>\<open>research\<close> of the
  query \<^verbatim>\<open>x\<close> at time 0.\<close>

definition every_attempt :: "'a \<Rightarrow> nat \<Rightarrow> 'a" where
  "every_attempt r n = r"

definition sample_research_data :: research_data where
  "sample_research_data =
     \<lparr>rd_request_id = Some ''req-1'', rd_status = Some ''completed'',
      rd_content = Some ''findings'', rd_sources = None\<rparr>"


definition after_research :: ResearchTool where
  "after_research =
     snd (research id (clock_at 0) (every_attempt (Inr sample_research_data)) ''x'' PRO 10
            None None ''u1'' sample_tool)"

definition sample_request :: ResearchRequest where
  "sample_request =
     \<lparr>ResearchRequest.query = ''x'', model = PRO, max_results = 10, include_domains = [],
      exclude_domains = []\<rparr>"

definition breaker_tripped :: ResearchTool where
  "breaker_tripped =
     snd (qna (clock_at 3) (Inl (OtherException ''bad'')) ''y'' ''u1''
       (snd (qna (clock_at 2) (Inl (OtherException ''bad'')) ''y'' ''u1'' after_research)))"

definition sample_search_request :: SearchRequest where
  "sample_search_request =
     \<lparr>SearchRequest.query = ''x'', search_depth = ''basic'', max_results = 10,
      include_domains = [], exclude_domains = [], include_answer = True,
      include_raw_content = False\<rparr>"

definition sample_search_data :: search_data where
  "sample_search_data =
     \<lparr>sd_query = None, sd_answer = Some ''an answer'', sd_results = None,
      sd_response_time = None\<rparr>"

definition after_search :: ResearchTool where
  "after_search =
     snd (search id (clock_at 0) (every_attempt (Inr sample_search_data)) ''x'' ''basic'' 10
            None None True False ''u1'' sample_tool)"


text \<open>A second request for the same query, with other parameters.\<close>

definition wider_request :: ResearchRequest where
  "wider_request =
     sample_request\<lparr>ResearchRequest.max_results := 20,
       ResearchRequest.include_domains := [''example.com'']\<rparr>"

section \<open>Breaker: basic facts\<close>

lemma record_failure_fields:
  "threshold (record_failure now cb) = threshold cb"
  "timeout (record_failure now cb) = timeout cb"
  "failures (record_failure now cb) = failures cb + 1"
  "last_failure (record_failure now cb) = now"
  by (simp_all add: record_failure_def Let_def)

lemma record_failure_state:
  "state (record_failure now cb) =
     (if failures cb + 1 \<ge> threshold cb then Open else state cb)"
  by (simp add: record_failure_def Let_def)

lemma can_execute_fields:
  "threshold (snd (can_execute now cb)) = threshold cb"
  "timeout (snd (can_execute now cb)) = timeout cb"
  "failures (snd (can_execute now cb)) = failures cb"
  "last_failure (snd (can_execute now cb)) = last_failure cb"
  by (simp_all add: can_execute_def)

lemma breaker_step_consts:
  "threshold (breaker_step x cb) = threshold cb"
  "timeout (breaker_step x cb) = timeout cb"
  by (cases x; simp add: can_execute_fields record_failure_fields record_success_def)+

lemma run_breaker_consts:
  "threshold (run_breaker xs cb) = threshold cb \<and> timeout (run_breaker xs cb) = timeout cb"
  by (induction xs arbitrary: cb) (simp_all add: breaker_step_consts)

lemma run_breaker_append:
  "run_breaker (xs @ ys) cb = run_breaker ys (run_breaker xs cb)"
  by (induction xs arbitrary: cb) simp_all

lemma breaker_inv_step: "breaker_inv cb \<Longrightarrow> breaker_inv (breaker_step x cb)"
  by (cases x)
     (auto simp: breaker_inv_def can_execute_def record_success_def record_failure_def Let_def)

lemma breaker_inv_run: "breaker_inv cb \<Longrightarrow> breaker_inv (run_breaker xs cb)"
  by (induction xs arbitrary: cb) (simp_all add: breaker_inv_step)

lemma breaker_inv_init: "breaker_inv (CircuitBreaker_init th tmo)"
  by (simp add: breaker_inv_def CircuitBreaker_init_def)



lemma run_failures_count:
  "failures (run_breaker (map RecordFailure tms) cb) = failures cb + int (length tms)"
  by (induction tms arbitrary: cb) (simp_all add: record_failure_fields)

lemma run_failures_snoc:
  "run_breaker (map RecordFailure (tms @ [t])) cb =
     record_failure t (run_breaker (map RecordFailure tms) cb)"
  by (simp add: run_breaker_append)

lemma run_failures_opens:
  assumes "tms \<noteq> []" and "threshold cb \<le> failures cb + int (length tms)"
  shows "state (run_breaker (map RecordFailure tms) cb) = Open
         \<and> last_failure (run_breaker (map RecordFailure tms) cb) = last tms"
proof -
  from assms(1) obtain us t where tms: "tms = us @ [t]"
    by (metis rev_exhaust)
  let ?mid = "run_breaker (map RecordFailure us) cb"
  have thr: "threshold ?mid = threshold cb"
    by (simp add: run_breaker_consts)
  have cnt: "failures ?mid + 1 = failures cb + int (length tms)"
    by (simp add: run_failures_count tms)
  have "state (record_failure t ?mid) = Open"
    using assms(2) thr cnt by (simp add: record_failure_state)
  moreover have "last_failure (record_failure t ?mid) = t"
    by (simp add: record_failure_fields)
  ultimately show ?thesis
    by (simp add: tms run_failures_snoc del: map_append)
qed

lemma can_execute_all_half_open:
  "state cb = HalfOpen \<Longrightarrow> can_execute_all tms cb = (replicate (length tms) True, cb)"
  by (induction tms) (simp_all add: can_execute_def)

section \<open>Breaker: the claims\<close>

text \<open>
  C1. Starting from the initial breaker (closed, no failure counted), after \<open>threshold\<close>
  consecutive \<^verbatim>\<open>record_failure\<close> calls (a positive number of calls \<open>tms\<close>, whose count
  reaches the threshold) the state is \<open>Open\<close>, the last failure time is the time of the
  last call, and \<^verbatim>\<open>can_execute\<close> returns false, changing nothing, while less than
  \<open>timeout\<close> seconds have passed since that failure. In a half-open breaker reached
  from the initial one by any operations, \<^verbatim>\<open>record_success\<close> resets the failure count
  and closes the breaker, and \<^verbatim>\<open>record_failure\<close> sets the last failure time to now,
  adds one to the failures and reopens the breaker.
\<close>

theorem breaker_opens_and_half_open_resolves:
  fixes th tmo :: int and tms :: "seconds list" and now :: seconds and ops :: "breaker_op list"
  defines "opened \<equiv> run_breaker (map RecordFailure tms) (CircuitBreaker_init th tmo)"
  defines "cb \<equiv> run_breaker ops (CircuitBreaker_init th tmo)"
  shows "(tms \<noteq> [] \<and> int (length tms) = th \<longrightarrow>
            state opened = Open \<and> failures opened = th \<and> last_failure opened = last tms
            \<and> (now - last tms < real_of_int tmo \<longrightarrow> can_execute now opened = (False, opened)))
         \<and> (state cb = HalfOpen \<longrightarrow>
              failures (record_success cb) = 0 \<and> state (record_success cb) = Closed
              \<and> last_failure (record_failure now cb) = now
              \<and> failures (record_failure now cb) = failures cb + 1
              \<and> state (record_failure now cb) = Open)"
proof (intro conjI impI)
  assume a: "tms \<noteq> [] \<and> int (length tms) = th"
  have init: "threshold (CircuitBreaker_init th tmo) = th" "failures (CircuitBreaker_init th tmo) = 0"
    by (simp_all add: CircuitBreaker_init_def)
  have op: "state opened = Open \<and> last_failure opened = last tms"
    unfolding opened_def using a init by (intro run_failures_opens) simp_all
  show "state opened = Open" "last_failure opened = last tms"
    using op by simp_all
  show "failures opened = th"
    unfolding opened_def using a init by (simp add: run_failures_count)
  assume "now - last tms < real_of_int tmo"
  moreover have "timeout opened = tmo"
    unfolding opened_def by (simp add: run_breaker_consts CircuitBreaker_init_def)
  ultimately show "can_execute now opened = (False, opened)"
    using op by (simp add: can_execute_def)
next
  assume h: "state cb = HalfOpen"
  have "breaker_inv cb"
    unfolding cb_def by (rule breaker_inv_run [OF breaker_inv_init])
  with h have ge: "threshold cb \<le> failures cb"
    by (simp add: breaker_inv_def)
  show "failures (record_success cb) = 0" "state (record_success cb) = Closed"
    by (simp_all add: record_success_def)
  show "last_failure (record_failure now cb) = now"
       "failures (record_failure now cb) = failures cb + 1"
    by (simp_all add: record_failure_fields)
  show "state (record_failure now cb) = Open"
    using ge by (simp add: record_failure_state)
qed

theorem breaker_opens_and_half_open_resolves_witness:
  "state (run_breaker (map RecordFailure [1, 2]) (CircuitBreaker_init 2 5)) = Open
   \<and> failures (run_breaker (map RecordFailure [1, 2]) (CircuitBreaker_init 2 5)) = 2
   \<and> last_failure (run_breaker (map RecordFailure [1, 2]) (CircuitBreaker_init 2 5)) = 2
   \<and> can_execute 3 (run_breaker (map RecordFailure [1, 2]) (CircuitBreaker_init 2 5))
       = (False, run_breaker (map RecordFailure [1, 2]) (CircuitBreaker_init 2 5))
   \<and> state (run_breaker [RecordFailure 1, RecordFailure 2, CanExecute 8] (CircuitBreaker_init 2 5))
       = HalfOpen
   \<and> state (record_success
        (run_breaker [RecordFailure 1, RecordFailure 2, CanExecute 8] (CircuitBreaker_init 2 5)))
       = Closed
   \<and> state (record_failure 3
        (run_breaker [RecordFailure 1, RecordFailure 2, CanExecute 8] (CircuitBreaker_init 2 5)))
       = Open"
  using breaker_opens_and_half_open_resolves
    [where tms = "[1, 2]" and th = 2 and tmo = 5 and now = 3
       and ops = "[RecordFailure 1, RecordFailure 2, CanExecute 8]"]
  by (simp add: CircuitBreaker_init_def record_failure_def can_execute_def record_success_def)

text \<open>
  C10. \<^verbatim>\<open>record_success\<close> is total: in any state of the breaker it sets the failure
  count to 0 and the state to \<open>Closed\<close>, leaving the other fields as they are, so that
  the next \<^verbatim>\<open>can_execute\<close> answers true.
\<close>

theorem record_success_always_closes:
  "failures (record_success cb) = 0 \<and> state (record_success cb) = Closed
   \<and> record_success cb = cb\<lparr>failures := 0, state := Closed\<rparr>
   \<and> can_execute now (record_success cb) = (True, record_success cb)"
  by (simp add: record_success_def can_execute_def)

text \<open>
  C4. Whatever sequence of \<^verbatim>\<open>can_execute\<close>, \<^verbatim>\<open>record_success\<close> and
  \<^verbatim>\<open>record_failure\<close> calls is run from the initial closed breaker: when the state is
  \<open>Open\<close> the failure count is at least the threshold; and a call that moves the breaker
  into \<open>HalfOpen\<close> is a \<^verbatim>\<open>can_execute\<close> on an open breaker, at a time at least
  \<open>timeout\<close> seconds after the last failure time.
\<close>

theorem breaker_invariant_preserved:
  fixes th tmo :: int and ops pre :: "breaker_op list" and x :: breaker_op
  defines "cb \<equiv> run_breaker ops (CircuitBreaker_init th tmo)"
  defines "before \<equiv> run_breaker pre (CircuitBreaker_init th tmo)"
  shows "(state cb = Open \<longrightarrow> threshold cb \<le> failures cb)
         \<and> (state before \<noteq> HalfOpen
              \<and> state (run_breaker (pre @ [x]) (CircuitBreaker_init th tmo)) = HalfOpen \<longrightarrow>
             (\<exists>now. x = CanExecute now \<and> state before = Open
                    \<and> real_of_int (timeout before) \<le> now - last_failure before))"
proof (intro conjI impI)
  assume "state cb = Open"
  moreover have "breaker_inv cb"
    unfolding cb_def by (rule breaker_inv_run [OF breaker_inv_init])
  ultimately show "threshold cb \<le> failures cb"
    by (simp add: breaker_inv_def)
next
  assume a: "state before \<noteq> HalfOpen
    \<and> state (run_breaker (pre @ [x]) (CircuitBreaker_init th tmo)) = HalfOpen"
  then have after: "state (breaker_step x before) = HalfOpen"
    by (simp add: run_breaker_append before_def)
  show "\<exists>now. x = CanExecute now \<and> state before = Open
          \<and> real_of_int (timeout before) \<le> now - last_failure before"
  proof (cases x)
    case (CanExecute now)
    with a after show ?thesis
      by (auto simp: can_execute_def split: if_splits)
  next
    case RecordSuccess
    with after show ?thesis
      by (simp add: record_success_def)
  next
    case (RecordFailure now)
    with a after show ?thesis
      by (simp add: record_failure_state split: if_splits)
  qed
qed

theorem breaker_invariant_preserved_witness:
  "state (run_breaker [RecordFailure 1, CanExecute 2, RecordFailure 3] (CircuitBreaker_init 2 5))
     = Open
   \<and> threshold (run_breaker [RecordFailure 1, CanExecute 2, RecordFailure 3]
        (CircuitBreaker_init 2 5))
     \<le> failures (run_breaker [RecordFailure 1, CanExecute 2, RecordFailure 3]
        (CircuitBreaker_init 2 5))
   \<and> state (run_breaker [RecordFailure 1, RecordFailure 3] (CircuitBreaker_init 2 5)) \<noteq> HalfOpen
   \<and> state (run_breaker ([RecordFailure 1, RecordFailure 3] @ [CanExecute 9])
        (CircuitBreaker_init 2 5)) = HalfOpen
   \<and> (\<exists>now. CanExecute 9 = CanExecute now
         \<and> state (run_breaker [RecordFailure 1, RecordFailure 3] (CircuitBreaker_init 2 5)) = Open
         \<and> real_of_int (timeout (run_breaker [RecordFailure 1, RecordFailure 3]
              (CircuitBreaker_init 2 5)))
           \<le> now - last_failure (run_breaker [RecordFailure 1, RecordFailure 3]
              (CircuitBreaker_init 2 5)))"
  using breaker_invariant_preserved
    [where ops = "[RecordFailure 1, CanExecute 2, RecordFailure 3]" and th = 2 and tmo = 5
       and pre = "[RecordFailure 1, RecordFailure 3]" and x = "CanExecute 9"]
  by (simp add: CircuitBreaker_init_def record_failure_def can_execute_def)

text \<open>
  C2, as the code has it. On an open breaker, a \<^verbatim>\<open>can_execute\<close> call made before
  \<open>timeout\<close> seconds have passed since the last failure time returns false and changes
  nothing; the first call made once they have passed returns true and moves the breaker to
  \<open>HalfOpen\<close>; and every further \<^verbatim>\<open>can_execute\<close> call before the next
  \<^verbatim>\<open>record_success\<close> or \<^verbatim>\<open>record_failure\<close> returns true as well, the breaker
  staying \<open>HalfOpen\<close>: the number of probes is not bounded.
\<close>

theorem open_breaker_probe:
  "state cb = Open \<longrightarrow>
     (now - last_failure cb < real_of_int (timeout cb) \<longrightarrow> can_execute now cb = (False, cb))
     \<and> (real_of_int (timeout cb) \<le> now - last_failure cb \<longrightarrow>
          can_execute now cb = (True, cb\<lparr>state := HalfOpen\<rparr>)
          \<and> can_execute_all tms (snd (can_execute now cb))
              = (replicate (length tms) True, cb\<lparr>state := HalfOpen\<rparr>))"
  by (simp add: can_execute_def can_execute_all_half_open)

theorem open_breaker_probe_witness:
  "state (run_breaker [RecordFailure 0, RecordFailure 0] (CircuitBreaker_init 2 5)) = Open
   \<and> can_execute 4 (run_breaker [RecordFailure 0, RecordFailure 0] (CircuitBreaker_init 2 5))
       = (False, run_breaker [RecordFailure 0, RecordFailure 0] (CircuitBreaker_init 2 5))
   \<and> fst (can_execute 6 (run_breaker [RecordFailure 0, RecordFailure 0] (CircuitBreaker_init 2 5)))
   \<and> fst (can_execute_all [7, 8, 9]
        (snd (can_execute 6
          (run_breaker [RecordFailure 0, RecordFailure 0] (CircuitBreaker_init 2 5)))))
       = [True, True, True]"
  using open_breaker_probe
    [of "run_breaker [RecordFailure 0, RecordFailure 0] (CircuitBreaker_init 2 5)" 4 "[]"]
    open_breaker_probe
    [of "run_breaker [RecordFailure 0, RecordFailure 0] (CircuitBreaker_init 2 5)" 6 "[7, 8, 9]"]
  by (simp add: CircuitBreaker_init_def record_failure_def can_execute_def)

text \<open>
  C2 as stated fails: with threshold 2 and timeout 5, after two failures at time 0 the
  \<^verbatim>\<open>can_execute\<close> calls at times 6 and 7 both return true, where the claim lets one
  call through and has every other call return false.
\<close>

theorem single_probe_counterexample:
  "state (run_breaker [RecordFailure 0, RecordFailure 0] (CircuitBreaker_init 2 5)) = Open
   \<and> fst (can_execute_all [6, 7]
        (run_breaker [RecordFailure 0, RecordFailure 0] (CircuitBreaker_init 2 5)))
       = [True, True]
   \<and> state (snd (can_execute_all [6, 7]
        (run_breaker [RecordFailure 0, RecordFailure 0] (CircuitBreaker_init 2 5))))
       = HalfOpen"
  by (simp add: CircuitBreaker_init_def record_failure_def can_execute_def)

section \<open>Rate limiter: facts and the claim\<close>


lemma check_fst:
  "fst (check now k rl) =
     (int (length (filter (\<lambda>t. now - real_of_int (window_seconds rl) < t) (requests_of rl k)))
        < max_requests rl)"
  by (simp add: check_def Let_def)

lemma check_requests_of:
  "requests_of (snd (check now k rl)) k' =
     (if k' = k
      then filter (\<lambda>t. now - real_of_int (window_seconds rl) < t) (requests_of rl k)
           @ (if fst (check now k rl) then [now] else [])
      else requests_of rl k')"
  by (simp add: check_def Let_def requests_of_def)

lemma check_consts:
  "max_requests (snd (check now k rl)) = max_requests rl"
  "window_seconds (snd (check now k rl)) = window_seconds rl"
  by (simp_all add: check_def Let_def)

lemma RateLimiter_init_fields:
  "max_requests (RateLimiter_init cap w) = cap"
  "window_seconds (RateLimiter_init cap w) = w"
  "requests_of (RateLimiter_init cap w) k = []"
  by (simp_all add: RateLimiter_init_def requests_of_def)

lemma run_checks_Cons:
  "run_checks ((k, t) # cs) rl =
     ((k, t, fst (check t k rl)) # fst (run_checks cs (snd (check t k rl))),
      snd (run_checks cs (snd (check t k rl))))"
  by (simp add: case_prod_unfold Let_def)

declare run_checks.simps(2) [simp del]

lemma window_conj:
  fixes now t w x :: real
  shows "t \<le> now \<Longrightarrow> (t - w < x \<and> now - w < x) = (now - w < x)"
  by auto

lemma run_checks_consts:
  "max_requests (snd (run_checks cs rl)) = max_requests rl
   \<and> window_seconds (snd (run_checks cs rl)) = window_seconds rl"
proof (induction cs arbitrary: rl)
  case Nil
  show ?case by simp
next
  case (Cons c cs)
  obtain k t where c: "c = (k, t)" by (cases c)
  show ?case
    unfolding c run_checks_Cons using Cons.IH [of "snd (check t k rl)"]
    by (simp add: check_consts)
qed

lemma run_checks_append:
  "run_checks (cs @ ds) rl =
     (fst (run_checks cs rl) @ fst (run_checks ds (snd (run_checks cs rl))),
      snd (run_checks ds (snd (run_checks cs rl))))"
proof (induction cs arbitrary: rl)
  case Nil
  show ?case by simp
next
  case (Cons c cs)
  obtain k t where c: "c = (k, t)" by (cases c)
  show ?case
    unfolding c append_Cons run_checks_Cons using Cons.IH [of "snd (check t k rl)"]
    by simp
qed

lemma admitted_times_Cons:
  "admitted_times k ((k', t, ok) # lg) =
     (if k' = k \<and> ok then t # admitted_times k lg else admitted_times k lg)"
  by (simp add: admitted_times_def)

lemma admitted_times_append:
  "admitted_times k (xs @ ys) = admitted_times k xs @ admitted_times k ys"
  by (simp add: admitted_times_def)

lemma filter_window_twice:
  fixes now t w :: real
  assumes "t \<le> now"
  shows "filter (\<lambda>x. now - w < x) (filter (\<lambda>x. t - w < x) xs) = filter (\<lambda>x. now - w < x) xs"
proof -
  have "\<And>x. (t - w < x \<and> now - w < x) = (now - w < x)"
    using assms by auto
  then show ?thesis by simp
qed

lemma run_checks_window:
  assumes "\<forall>c \<in> set cs. snd c \<le> now"
  shows "filter (\<lambda>x. now - real_of_int (window_seconds rl) < x)
           (requests_of (snd (run_checks cs rl)) k)
         = filter (\<lambda>x. now - real_of_int (window_seconds rl) < x)
             (requests_of rl k @ admitted_times k (fst (run_checks cs rl)))"
  using assms
proof (induction cs arbitrary: rl)
  case Nil
  show ?case by (simp add: admitted_times_def)
next
  case (Cons c cs)
  obtain k' t where c: "c = (k', t)" by (cases c)
  let ?rl1 = "snd (check t k' rl)"
  have t: "t \<le> now" using Cons.prems c by simp
  have rest: "\<forall>c \<in> set cs. snd c \<le> now" using Cons.prems by simp
  have ih: "filter (\<lambda>x. now - real_of_int (window_seconds rl) < x)
              (requests_of (snd (run_checks cs ?rl1)) k)
            = filter (\<lambda>x. now - real_of_int (window_seconds rl) < x)
                (requests_of ?rl1 k @ admitted_times k (fst (run_checks cs ?rl1)))"
    using Cons.IH [OF rest, of ?rl1] by (simp add: check_consts)
  show ?case
    unfolding c run_checks_Cons snd_conv fst_conv ih
    by (simp add: check_requests_of admitted_times_Cons window_conj [OF t])
qed

lemma check_after_run:
  assumes "\<forall>c \<in> set cs. snd c \<le> now"
  shows "fst (check now k (snd (run_checks cs (RateLimiter_init cap w)))) =
           (int (length (filter (\<lambda>x. now - real_of_int w < x)
              (admitted_times k (fst (run_checks cs (RateLimiter_init cap w)))))) < cap)"
proof -
  let ?rl = "RateLimiter_init cap w"
  have c: "max_requests ?rl = cap" "window_seconds ?rl = w" "requests_of ?rl k = []"
    by (simp_all add: RateLimiter_init_def requests_of_def)
  show ?thesis
    unfolding check_fst using run_checks_window [OF assms, of ?rl k] run_checks_consts [of cs ?rl]
    by (simp add: c)
qed

lemma admitted_window_bound:
  assumes "sorted (map snd cs)" and "\<forall>c \<in> set cs. snd c \<le> now"
  shows "int (length (filter (\<lambda>x. now - real_of_int w < x)
           (admitted_times k (fst (run_checks cs (RateLimiter_init cap w)))))) \<le> max 0 cap"
  using assms
proof (induction cs arbitrary: now rule: rev_induct)
  case Nil
  show ?case by (simp add: admitted_times_def)
next
  case (snoc c cs)
  obtain k' t where c: "c = (k', t)" by (cases c)
  let ?rl = "RateLimiter_init cap w"
  let ?lg = "fst (run_checks cs ?rl)"
  let ?ok = "fst (check t k' (snd (run_checks cs ?rl)))"
  have srt: "sorted (map snd cs)" and le_t: "\<forall>c \<in> set cs. snd c \<le> t"
    using snoc.prems(1) c by (auto simp: sorted_append)
  have t: "t \<le> now" and le_now: "\<forall>c \<in> set cs. snd c \<le> now"
    using snoc.prems(2) c by auto
  have lg: "fst (run_checks (cs @ [c]) ?rl) = ?lg @ [(k', t, ?ok)]"
    by (simp add: run_checks_append c run_checks_Cons)
  show ?case
  proof (cases "k' = k \<and> ?ok")
    case False
    then have "admitted_times k (fst (run_checks (cs @ [c]) ?rl)) = admitted_times k ?lg"
      by (auto simp: lg admitted_times_append admitted_times_Cons admitted_times_def)
    then show ?thesis
      using snoc.IH [OF srt le_now] by simp
  next
    case True
    then have kk: "k' = k" and ok: "fst (check t k (snd (run_checks cs ?rl)))"
      by blast+
    have adm: "admitted_times k (fst (run_checks (cs @ [c]) ?rl)) = admitted_times k ?lg @ [t]"
      using ok by (simp add: lg kk admitted_times_append admitted_times_Cons)
        (simp add: admitted_times_def)
    have lt: "int (length (filter (\<lambda>x. t - real_of_int w < x) (admitted_times k ?lg))) < cap"
      using ok check_after_run [OF le_t, of k cap w] by simp
    have "filter (\<lambda>x. now - real_of_int w < x) (admitted_times k ?lg)
            = filter (\<lambda>x. now - real_of_int w < x)
                (filter (\<lambda>x. t - real_of_int w < x) (admitted_times k ?lg))"
      by (simp only: filter_window_twice [OF t])
    then have "length (filter (\<lambda>x. now - real_of_int w < x) (admitted_times k ?lg))
            \<le> length (filter (\<lambda>x. t - real_of_int w < x) (admitted_times k ?lg))"
      by (metis length_filter_le)
    with lt show ?thesis
      unfolding adm by simp
  qed
qed


text \<open>
  C3. Let any sequence \<open>cs\<close> of \<^verbatim>\<open>check\<close> calls, on any keys and at times that do not
  decrease, run on a fresh limiter with cap \<open>cap\<close> and window \<open>w\<close>, and let \<open>now\<close> be no
  earlier than these calls. For every key \<open>k\<close>: the calls admitted for \<open>k\<close> in the window
  that ends at \<open>now\<close> are at most \<open>cap\<close>; when they are exactly \<open>cap\<close>, the next
  \<^verbatim>\<open>check\<close> for \<open>k\<close> at \<open>now\<close> returns false; and when every admitted call for \<open>k\<close>
  is at least \<open>w\<close> seconds old (and the cap is positive), the \<^verbatim>\<open>check\<close> returns true
  again. In any limiter, the list retained for a key after an admission has at most
  \<^verbatim>\<open>max_requests\<close> entries. With cap 2 and window 60, three checks of one key within
  60 seconds answer true, true, false.
\<close>

theorem rate_limiter_window:
  fixes cap w :: int and cs :: "(string \<times> seconds) list" and k :: string
    and now t1 t2 t3 :: seconds and rl :: RateLimiter
  defines "lg \<equiv> fst (run_checks cs (RateLimiter_init cap w))"
  defines "cur \<equiv> snd (run_checks cs (RateLimiter_init cap w))"
  defines "in_window \<equiv> filter (\<lambda>t. now - real_of_int w < t) (admitted_times k lg)"
  shows "(sorted (map snd cs) \<and> (\<forall>c \<in> set cs. snd c \<le> now) \<longrightarrow>
            int (length in_window) \<le> max 0 cap
            \<and> (int (length in_window) = cap \<longrightarrow> \<not> fst (check now k cur))
            \<and> (0 < cap \<and> (\<forall>t \<in> set (admitted_times k lg). t \<le> now - real_of_int w) \<longrightarrow>
                 fst (check now k cur)))
         \<and> (fst (check now k rl) \<longrightarrow>
              int (length (requests_of (snd (check now k rl)) k)) \<le> max_requests rl)
         \<and> (t1 \<le> t2 \<and> t2 \<le> t3 \<and> t3 - t1 < 60 \<longrightarrow>
              map (\<lambda>(k', t, ok). ok)
                (fst (run_checks [(k, t1), (k, t2), (k, t3)] (RateLimiter_init 2 60)))
              = [True, True, False])"
proof (intro conjI impI)
  assume a: "sorted (map snd cs) \<and> (\<forall>c \<in> set cs. snd c \<le> now)"
  then have le: "\<forall>c \<in> set cs. snd c \<le> now" by simp
  have chk: "fst (check now k cur) = (int (length in_window) < cap)"
    unfolding cur_def in_window_def lg_def by (rule check_after_run [OF le])
  show "int (length in_window) \<le> max 0 cap"
    unfolding in_window_def lg_def using a by (intro admitted_window_bound) simp_all
  {
    assume "int (length in_window) = cap"
    then show "\<not> fst (check now k cur)" by (simp add: chk)
  }
  {
    assume b: "0 < cap \<and> (\<forall>t \<in> set (admitted_times k lg). t \<le> now - real_of_int w)"
    then have "in_window = []"
      unfolding in_window_def by (auto simp: filter_empty_conv)
    with b show "fst (check now k cur)" by (simp add: chk)
  }
next
  assume "fst (check now k rl)"
  then show "int (length (requests_of (snd (check now k rl)) k)) \<le> max_requests rl"
    by (simp add: check_requests_of) (simp add: check_fst)
next
  assume "t1 \<le> t2 \<and> t2 \<le> t3 \<and> t3 - t1 < 60"
  then show "map (\<lambda>(k', t, ok). ok)
      (fst (run_checks [(k, t1), (k, t2), (k, t3)] (RateLimiter_init 2 60)))
      = [True, True, False]"
    by (simp add: run_checks_Cons check_fst check_requests_of RateLimiter_init_fields
        check_consts)
qed

theorem rate_limiter_window_witness:
  "sorted (map snd [(''u1'', 0 :: real), (''u2'', 1), (''u1'', 1), (''u1'', 2)])
   \<and> admitted_times ''u1''
       (fst (run_checks [(''u1'', 0), (''u2'', 1), (''u1'', 1), (''u1'', 2)] (RateLimiter_init 2 60)))
       = [0, 1]
   \<and> \<not> fst (check 3 ''u1''
       (snd (run_checks [(''u1'', 0), (''u2'', 1), (''u1'', 1), (''u1'', 2)] (RateLimiter_init 2 60))))
   \<and> fst (check 61 ''u1''
       (snd (run_checks [(''u1'', 0), (''u2'', 1), (''u1'', 1), (''u1'', 2)] (RateLimiter_init 2 60))))
   \<and> fst (check 0 ''u1'' (RateLimiter_init 2 60))
   \<and> int (length (requests_of (snd (check 0 ''u1'' (RateLimiter_init 2 60))) ''u1'')) \<le> 2
   \<and> map (\<lambda>(k', t, ok). ok)
        (fst (run_checks [(''u1'', 5), (''u1'', 5), (''u1'', 5)] (RateLimiter_init 2 60)))
       = [True, True, False]"
  using rate_limiter_window
      [where cs = "[(''u1'', 0), (''u2'', 1), (''u1'', 1), (''u1'', 2)]" and cap = 2 and w = 60
         and k = "''u1''" and now = 3 and rl = "RateLimiter_init 2 60"
         and ?t1.0 = 5 and ?t2.0 = 5 and ?t3.0 = 5]
    rate_limiter_window
      [where cs = "[(''u1'', 0), (''u2'', 1), (''u1'', 1), (''u1'', 2)]" and cap = 2 and w = 60
         and k = "''u1''" and now = 61 and rl = "RateLimiter_init 2 60"
         and ?t1.0 = 5 and ?t2.0 = 5 and ?t3.0 = 5]
  by (simp add: run_checks_Cons check_fst check_requests_of RateLimiter_init_fields
      check_consts admitted_times_def)


section \<open>Gateway: facts\<close>

declare retrying.simps [simp del]

lemma retrying_3:
  "retrying 3 a = (case a 3 of Inr r \<Rightarrow> (Inr r, 3) | Inl e \<Rightarrow> (Inl e, 3))"
  by (subst retrying.simps) (simp split: sum.splits)

lemma retrying_2:
  "retrying 2 a =
     (case a 2 of Inr r \<Rightarrow> (Inr r, 2)
      | Inl e \<Rightarrow> if is_transient e then retrying 3 a else (Inl e, 2))"
  by (subst retrying.simps) (simp add: numeral_3_eq_3 numeral_2_eq_2 split: sum.splits)

lemma retrying_1:
  "retrying (Suc 0) a =
     (case a (Suc 0) of Inr r \<Rightarrow> (Inr r, Suc 0)
      | Inl e \<Rightarrow> if is_transient e then retrying 2 a else (Inl e, Suc 0))"
  by (subst retrying.simps) (simp add: numeral_2_eq_2 split: sum.splits)

lemma retrying_attempts:
  "snd (retrying 1 a) \<in> {1, 2, 3}"
  by (simp add: retrying_1 retrying_2 retrying_3 split: sum.splits)

lemma upstream_fails_retrying:
  "upstream_fails a \<longleftrightarrow> (\<exists>e. fst (retrying 1 a) = Inl e)"
  by (auto simp: upstream_fails_def transient_failure_def other_failure_def
      retrying_1 retrying_2 retrying_3 split: sum.splits)

lemma retrying_map:
  "retrying (Suc 0) (\<lambda>n. case up n of Inl e \<Rightarrow> Inl e | Inr d \<Rightarrow> Inr (f d)) =
     (case retrying (Suc 0) up of
        (Inl e, k) \<Rightarrow> (Inl e, k)
      | (Inr d, k) \<Rightarrow> (Inr (f d), k))"
  by (simp add: retrying_1 retrying_2 retrying_3 split: sum.splits)

lemma upstream_fails_map:
  "upstream_fails (\<lambda>n. case up n of Inl e \<Rightarrow> Inl e | Inr d \<Rightarrow> Inr (f d)) = upstream_fails up"
  by (simp add: upstream_fails_def transient_failure_def other_failure_def split: sum.splits)

lemma check_limits_eq:
  "check_limits clk uid gw =
     (if \<not> fst (can_execute (t_breaker clk) (circuit_breaker gw))
      then (Inl (CircuitOpenError ''Service temporarily unavailable''),
            gw\<lparr>calls := calls gw @ [CanExecuteCalled]\<rparr>)
      else if \<not> fst (check (t_limiter clk) uid (rate_limiter gw))
      then (Inl (RateLimitError (''Rate limit exceeded for user '' @ uid)),
            gw\<lparr>circuit_breaker := snd (can_execute (t_breaker clk) (circuit_breaker gw)),
               rate_limiter := snd (check (t_limiter clk) uid (rate_limiter gw)),
               calls := calls gw @ [CanExecuteCalled, LimiterChecked uid]\<rparr>)
      else (Inr (),
            gw\<lparr>circuit_breaker := snd (can_execute (t_breaker clk) (circuit_breaker gw)),
               rate_limiter := snd (check (t_limiter clk) uid (rate_limiter gw)),
               calls := calls gw @ [CanExecuteCalled, LimiterChecked uid]\<rparr>))"
  by (auto simp: check_limits_def case_prod_unfold Let_def can_execute_def)

lemma failure_pathI:
  "k \<in> {1, 2, 3} \<Longrightarrow> failure_path now gw1 (gw_record_failure now (log_attempts k gw1))"
  by (auto simp: failure_path_def gw_record_failure_def log_attempts_def)

lemma research_failure:
  assumes "ResearchRequest_new q m n (or_empty inc) (or_empty exc) = Inr req"
    and "check_limits clk uid gw = (Inr (), gw1)"
    and "get_cached (t_lookup clk) (research_cache_key h req) gw1 = None"
    and "upstream_fails up"
  shows "\<exists>e. fst (retrying 1 up) = Inl e
             \<and> fst (research h clk up q m n inc exc uid gw)
               = Inl (ResearchToolError (''Research failed: '' @ exn_str e) (Some e))
             \<and> failure_path (t_done clk) gw1 (snd (research h clk up q m n inc exc uid gw))
             \<and> calls (snd (research h clk up q m n inc exc uid gw))
                 = calls gw1 @ replicate (snd (retrying 1 up)) UpstreamAttempt @ [FailureRecorded]"
proof -
  let ?a = "\<lambda>n. case up n of Inl e \<Rightarrow> Inl e | Inr d \<Rightarrow> Inr (research_result req d)"
  from assms(4) obtain e where e: "fst (retrying 1 up) = Inl e"
    using upstream_fails_retrying [of up] by auto
  have k: "snd (retrying 1 up) \<in> {1, 2, 3}"
    by (rule retrying_attempts)
  have r: "retrying 1 ?a = (Inl e, snd (retrying 1 up))"
    using e by (cases "retrying 1 up") (auto simp: retrying_map)
  show ?thesis
    using assms(1-3) r e failure_pathI [OF k, of "t_done clk" gw1]
    by (intro exI [of _ e])
       (simp add: research_def research_sync_def gw_record_failure_def log_attempts_def)
qed


lemma search_failure:
  assumes "SearchRequest_new q depth n (or_empty inc) (or_empty exc) ans raw = Inr req"
    and "check_limits clk uid gw = (Inr (), gw1)"
    and "get_cached (t_lookup clk) (search_cache_key h req) gw1 = None"
    and "upstream_fails up"
  shows "\<exists>e. fst (retrying 1 up) = Inl e
             \<and> fst (search h clk up q depth n inc exc ans raw uid gw)
               = Inl (ResearchToolError (''Search failed: '' @ exn_str e) (Some e))
             \<and> failure_path (t_done clk) gw1 (snd (search h clk up q depth n inc exc ans raw uid gw))
             \<and> calls (snd (search h clk up q depth n inc exc ans raw uid gw))
                 = calls gw1 @ replicate (snd (retrying 1 up)) UpstreamAttempt @ [FailureRecorded]"
proof -
  let ?a = "\<lambda>n. case up n of Inl e \<Rightarrow> Inl e | Inr d \<Rightarrow> Inr (search_result req d)"
  from assms(4) obtain e where e: "fst (retrying 1 up) = Inl e"
    using upstream_fails_retrying [of up] by auto
  have k: "snd (retrying 1 up) \<in> {1, 2, 3}"
    by (rule retrying_attempts)
  have r: "retrying 1 ?a = (Inl e, snd (retrying 1 up))"
    using e by (cases "retrying 1 up") (auto simp: retrying_map)
  show ?thesis
    using assms(1-3) r e failure_pathI [OF k, of "t_done clk" gw1]
    by (intro exI [of _ e])
       (simp add: search_def search_sync_def gw_record_failure_def log_attempts_def)
qed

lemma extract_failure:
  assumes "ExtractRequest_new us imgs = Inr req"
    and "check_limits clk uid gw = (Inr (), gw1)"
    and "upstream_fails up"
  shows "\<exists>e. fst (retrying 1 up) = Inl e
             \<and> fst (extract_op clk up us imgs uid gw)
               = Inl (ResearchToolError (''Extract failed: '' @ exn_str e) (Some e))
             \<and> failure_path (t_done clk) gw1 (snd (extract_op clk up us imgs uid gw))
             \<and> calls (snd (extract_op clk up us imgs uid gw))
                 = calls gw1 @ replicate (snd (retrying 1 up)) UpstreamAttempt @ [FailureRecorded]"
proof -
  let ?a = "\<lambda>n. case up n of Inl e \<Rightarrow> Inl e | Inr d \<Rightarrow> Inr (extract_result d)"
  from assms(3) obtain e where e: "fst (retrying 1 up) = Inl e"
    using upstream_fails_retrying [of up] by auto
  have k: "snd (retrying 1 up) \<in> {1, 2, 3}"
    by (rule retrying_attempts)
  have r: "retrying 1 ?a = (Inl e, snd (retrying 1 up))"
    using e by (cases "retrying 1 up") (auto simp: retrying_map)
  show ?thesis
    using assms(1-2) r e failure_pathI [OF k, of "t_done clk" gw1]
    by (intro exI [of _ e])
       (simp add: extract_op_def extract_sync_def gw_record_failure_def log_attempts_def)
qed

lemma get_context_failure:
  assumes "\<not> (q = [] \<or> strip q = [])" and "check_limits clk uid gw = (Inr (), gw1)"
  shows "fst (get_context clk (Inl e) q mt uid gw)
           = Inl (ResearchToolError (''Get context failed: '' @ exn_str e) (Some e))
         \<and> failure_path (t_done clk) gw1 (snd (get_context clk (Inl e) q mt uid gw))"
  using assms failure_pathI [of 1 "t_done clk" gw1] by (simp add: get_context_def)

lemma qna_failure:
  assumes "\<not> (q = [] \<or> strip q = [])" and "check_limits clk uid gw = (Inr (), gw1)"
  shows "fst (qna clk (Inl e) q uid gw)
           = Inl (ResearchToolError (''QnA failed: '' @ exn_str e) (Some e))
         \<and> failure_path (t_done clk) gw1 (snd (qna clk (Inl e) q uid gw))"
  using assms failure_pathI [of 1 "t_done clk" gw1] by (simp add: qna_def)

lemma research_stream_failure:
  assumes "ResearchRequest_new q m 10 [] [] = Inr req"
    and "check_limits clk uid gw = (Inr (), gw1)"
    and "up = Inl e \<and> chunks = [] \<or> up = Inr (chunks, Some e)"
  shows "fst (research_stream clk up q m uid gw)
           = (chunks, Some (ResearchToolError (''Research stream failed: '' @ exn_str e) (Some e)))
         \<and> failure_path (t_done clk) gw1 (snd (research_stream clk up q m uid gw))"
  using assms failure_pathI [of 1 "t_done clk" gw1] by (auto simp: research_stream_def)

lemma check_limits_frame:
  "cache (snd (check_limits clk uid gw)) = cache gw
   \<and> usage_tracker (snd (check_limits clk uid gw)) = usage_tracker gw"
  by (simp add: check_limits_eq)

section \<open>Gateway: the failure path\<close>

text \<open>
  C6. For every operation of the gateway, once the request is valid and admitted (and,
  for \<^verbatim>\<open>research\<close> and \<^verbatim>\<open>search\<close>, the cache has no valid entry): when the upstream
  call fails (under the retry policy for \<^verbatim>\<open>research\<close>, \<^verbatim>\<open>search\<close> and
  \<^verbatim>\<open>extract\<close>: a failure that is not transient, or a transient one on all three
  attempts; for \<^verbatim>\<open>get_context\<close>, \<^verbatim>\<open>qna\<close> and the stream, which are not retried:
  any exception), the operation raises a \<open>ResearchToolError\<close> that wraps the exception
  the upstream call ended with (for the retried calls, the one \<open>retrying\<close> ends with),
  \<^verbatim>\<open>record_failure\<close> is called exactly once, after as many upstream attempts as the
  retry policy made, and the cache is as it was before the operation.
\<close>

theorem upstream_failure_recorded_once:
  "(check_limits clk uid gw = (Inr (), gw1) \<longrightarrow> cache gw1 = cache gw)
   \<and> (ResearchRequest_new q m n (or_empty inc) (or_empty exc) = Inr req
      \<and> check_limits clk uid gw = (Inr (), gw1)
      \<and> get_cached (t_lookup clk) (research_cache_key h req) gw1 = None
      \<and> upstream_fails up_r \<longrightarrow>
        (\<exists>e. fst (retrying 1 up_r) = Inl e
              \<and> fst (research h clk up_r q m n inc exc uid gw)
                = Inl (ResearchToolError (''Research failed: '' @ exn_str e) (Some e))
              \<and> failure_path (t_done clk) gw1 (snd (research h clk up_r q m n inc exc uid gw))
              \<and> calls (snd (research h clk up_r q m n inc exc uid gw))
                  = calls gw1 @ replicate (snd (retrying 1 up_r)) UpstreamAttempt @ [FailureRecorded]))
   \<and> (SearchRequest_new q depth n (or_empty inc) (or_empty exc) ans raw = Inr sreq
      \<and> check_limits clk uid gw = (Inr (), gw1)
      \<and> get_cached (t_lookup clk) (search_cache_key h sreq) gw1 = None
      \<and> upstream_fails up_s \<longrightarrow>
        (\<exists>e. fst (retrying 1 up_s) = Inl e
              \<and> fst (search h clk up_s q depth n inc exc ans raw uid gw)
                = Inl (ResearchToolError (''Search failed: '' @ exn_str e) (Some e))
              \<and> failure_path (t_done clk) gw1
                  (snd (search h clk up_s q depth n inc exc ans raw uid gw))
              \<and> calls (snd (search h clk up_s q depth n inc exc ans raw uid gw))
                  = calls gw1 @ replicate (snd (retrying 1 up_s)) UpstreamAttempt @ [FailureRecorded]))
   \<and> (ExtractRequest_new us imgs = Inr xreq
      \<and> check_limits clk uid gw = (Inr (), gw1)
      \<and> upstream_fails up_x \<longrightarrow>
        (\<exists>e. fst (retrying 1 up_x) = Inl e
              \<and> fst (extract_op clk up_x us imgs uid gw)
                = Inl (ResearchToolError (''Extract failed: '' @ exn_str e) (Some e))
              \<and> failure_path (t_done clk) gw1 (snd (extract_op clk up_x us imgs uid gw))
              \<and> calls (snd (extract_op clk up_x us imgs uid gw))
                  = calls gw1 @ replicate (snd (retrying 1 up_x)) UpstreamAttempt @ [FailureRecorded]))
   \<and> (\<not> (q = [] \<or> strip q = []) \<and> check_limits clk uid gw = (Inr (), gw1) \<longrightarrow>
        fst (get_context clk (Inl ex) q max_tokens uid gw)
          = Inl (ResearchToolError (''Get context failed: '' @ exn_str ex) (Some ex))
        \<and> failure_path (t_done clk) gw1 (snd (get_context clk (Inl ex) q max_tokens uid gw))
        \<and> fst (qna clk (Inl ex) q uid gw)
          = Inl (ResearchToolError (''QnA failed: '' @ exn_str ex) (Some ex))
        \<and> failure_path (t_done clk) gw1 (snd (qna clk (Inl ex) q uid gw)))
   \<and> (ResearchRequest_new q m 10 [] [] = Inr stream_req
      \<and> check_limits clk uid gw = (Inr (), gw1)
      \<and> (up_t = Inl ex \<and> chunks = [] \<or> up_t = Inr (chunks, Some ex)) \<longrightarrow>
        fst (research_stream clk up_t q m uid gw)
          = (chunks, Some (ResearchToolError (''Research stream failed: '' @ exn_str ex) (Some ex)))
        \<and> failure_path (t_done clk) gw1 (snd (research_stream clk up_t q m uid gw)))"
proof (intro conjI impI)
  assume "check_limits clk uid gw = (Inr (), gw1)"
  then show "cache gw1 = cache gw"
    using check_limits_frame [of clk uid gw] by simp
next
  assume "ResearchRequest_new q m n (or_empty inc) (or_empty exc) = Inr req
      \<and> check_limits clk uid gw = (Inr (), gw1)
      \<and> get_cached (t_lookup clk) (research_cache_key h req) gw1 = None
      \<and> upstream_fails up_r"
  then show "\<exists>e. fst (retrying 1 up_r) = Inl e
              \<and> fst (research h clk up_r q m n inc exc uid gw)
                = Inl (ResearchToolError (''Research failed: '' @ exn_str e) (Some e))
              \<and> failure_path (t_done clk) gw1 (snd (research h clk up_r q m n inc exc uid gw))
              \<and> calls (snd (research h clk up_r q m n inc exc uid gw))
                  = calls gw1 @ replicate (snd (retrying 1 up_r)) UpstreamAttempt @ [FailureRecorded]"
    by (elim conjE) (rule research_failure)
next
  assume "SearchRequest_new q depth n (or_empty inc) (or_empty exc) ans raw = Inr sreq
      \<and> check_limits clk uid gw = (Inr (), gw1)
      \<and> get_cached (t_lookup clk) (search_cache_key h sreq) gw1 = None
      \<and> upstream_fails up_s"
  then show "\<exists>e. fst (retrying 1 up_s) = Inl e
              \<and> fst (search h clk up_s q depth n inc exc ans raw uid gw)
                = Inl (ResearchToolError (''Search failed: '' @ exn_str e) (Some e))
              \<and> failure_path (t_done clk) gw1
                  (snd (search h clk up_s q depth n inc exc ans raw uid gw))
              \<and> calls (snd (search h clk up_s q depth n inc exc ans raw uid gw))
                  = calls gw1 @ replicate (snd (retrying 1 up_s)) UpstreamAttempt @ [FailureRecorded]"
    by (elim conjE) (rule search_failure)
next
  assume "ExtractRequest_new us imgs = Inr xreq
      \<and> check_limits clk uid gw = (Inr (), gw1)
      \<and> upstream_fails up_x"
  then show "\<exists>e. fst (retrying 1 up_x) = Inl e
              \<and> fst (extract_op clk up_x us imgs uid gw)
                = Inl (ResearchToolError (''Extract failed: '' @ exn_str e) (Some e))
              \<and> failure_path (t_done clk) gw1 (snd (extract_op clk up_x us imgs uid gw))
              \<and> calls (snd (extract_op clk up_x us imgs uid gw))
                  = calls gw1 @ replicate (snd (retrying 1 up_x)) UpstreamAttempt @ [FailureRecorded]"
    by (elim conjE) (rule extract_failure)
next
  assume a: "\<not> (q = [] \<or> strip q = []) \<and> check_limits clk uid gw = (Inr (), gw1)"
  show "fst (get_context clk (Inl ex) q max_tokens uid gw)
          = Inl (ResearchToolError (''Get context failed: '' @ exn_str ex) (Some ex))"
       "failure_path (t_done clk) gw1 (snd (get_context clk (Inl ex) q max_tokens uid gw))"
    using a get_context_failure [of q clk uid gw gw1 ex max_tokens] by simp_all
  show "fst (qna clk (Inl ex) q uid gw)
          = Inl (ResearchToolError (''QnA failed: '' @ exn_str ex) (Some ex))"
       "failure_path (t_done clk) gw1 (snd (qna clk (Inl ex) q uid gw))"
    using a qna_failure [of q clk uid gw gw1 ex] by simp_all
next
  assume a: "ResearchRequest_new q m 10 [] [] = Inr stream_req
      \<and> check_limits clk uid gw = (Inr (), gw1)
      \<and> (up_t = Inl ex \<and> chunks = [] \<or> up_t = Inr (chunks, Some ex))"
  show "fst (research_stream clk up_t q m uid gw)
          = (chunks, Some (ResearchToolError (''Research stream failed: '' @ exn_str ex) (Some ex)))"
       "failure_path (t_done clk) gw1 (snd (research_stream clk up_t q m uid gw))"
    using a research_stream_failure [of q m stream_req clk uid gw gw1 up_t ex chunks] by simp_all
qed


lemma replicate_small:
  "replicate 2 x = [x, x]" "replicate 3 x = [x, x, x]"
  by (simp_all add: numeral_2_eq_2 numeral_3_eq_3)

lemmas eval_request =
  ResearchRequest_new_def SearchRequest_new_def ExtractRequest_new_def query_not_empty_def
  urls_valid_def startswith_def strip_def is_space_def or_empty_def

lemmas eval_gateway =
  sample_tool_def clock_at_def ResearchTool_new_def CircuitBreaker_init_def RateLimiter_init_def
  UsageTracker_init_def check_limits_eq can_execute_def check_def requests_of_def get_cached_def
  set_cached_def mark_entry_def gw_clear_cache_def gw_record_success_def gw_record_failure_def
  log_attempts_def record_failure_def record_success_def clear_cache_def
  research_sync_def search_sync_def extract_sync_def retrying_1 retrying_2 retrying_3
  research_result_def search_result_def extract_result_def dflt_def replicate_small

theorem upstream_failure_recorded_once_witness:
  "fst (research id (clock_at 0) (\<lambda>n. Inl (ConnectionError ''down'')) ''x'' PRO 10 None None
         ''u1'' sample_tool)
     = Inl (ResearchToolError ''Research failed: down'' (Some (ConnectionError ''down'')))
   \<and> calls (snd (research id (clock_at 0) (\<lambda>n. Inl (ConnectionError ''down'')) ''x'' PRO 10
         None None ''u1'' sample_tool))
     = [CanExecuteCalled, LimiterChecked ''u1'', UpstreamAttempt, UpstreamAttempt,
        UpstreamAttempt, FailureRecorded]
   \<and> failures (circuit_breaker (snd (research id (clock_at 0)
         (\<lambda>n. Inl (ConnectionError ''down'')) ''x'' PRO 10 None None ''u1'' sample_tool))) = 1
   \<and> cache (snd (research id (clock_at 0) (\<lambda>n. Inl (ConnectionError ''down'')) ''x'' PRO 10
         None None ''u1'' sample_tool)) = cache sample_tool
   \<and> calls (snd (search id (clock_at 0) (\<lambda>n. Inl (OtherException ''bad'')) ''x'' ''basic'' 10
         None None True False ''u1'' sample_tool))
     = [CanExecuteCalled, LimiterChecked ''u1'', UpstreamAttempt, FailureRecorded]
   \<and> fst (extract_op (clock_at 0) (\<lambda>n. Inl (TimeoutError ''slow'')) [''http://a''] False
         ''u1'' sample_tool)
     = Inl (ResearchToolError ''Extract failed: slow'' (Some (TimeoutError ''slow'')))
   \<and> fst (get_context (clock_at 0) (Inl (TimeoutError ''slow'')) ''x'' 4000 ''u1'' sample_tool)
     = Inl (ResearchToolError ''Get context failed: slow'' (Some (TimeoutError ''slow'')))
   \<and> calls (snd (qna (clock_at 0) (Inl (TimeoutError ''slow'')) ''x'' ''u1'' sample_tool))
     = [CanExecuteCalled, LimiterChecked ''u1'', UpstreamAttempt, FailureRecorded]
   \<and> fst (research_stream (clock_at 0) (Inr ([''a'', ''b''], Some (TimeoutError ''slow'')))
         ''x'' PRO ''u1'' sample_tool)
     = ([''a'', ''b''],
        Some (ResearchToolError ''Research stream failed: slow'' (Some (TimeoutError ''slow''))))"
  using upstream_failure_recorded_once
    [where h = id and clk = "clock_at 0" and uid = "''u1''" and gw = sample_tool
       and ?gw1.0 = "snd (check_limits (clock_at 0) ''u1'' sample_tool)"
       and q = "''x''" and m = PRO and n = 10 and inc = None and exc = None
       and req = "projr (ResearchRequest_new ''x'' PRO 10 [] [])"
       and up_r = "\<lambda>n. Inl (ConnectionError ''down'')"
       and depth = "''basic''" and ans = True and raw = False
       and sreq = "projr (SearchRequest_new ''x'' ''basic'' 10 [] [] True False)"
       and up_s = "\<lambda>n. Inl (OtherException ''bad'')"
       and us = "[''http://a'']" and imgs = False
       and xreq = "projr (ExtractRequest_new [''http://a''] False)"
       and up_x = "\<lambda>n. Inl (TimeoutError ''slow'')"
       and ex = "TimeoutError ''slow''" and max_tokens = 4000
       and stream_req = "projr (ResearchRequest_new ''x'' PRO 10 [] [])"
       and up_t = "Inr ([''a'', ''b''], Some (TimeoutError ''slow''))"
       and chunks = "[''a'', ''b'']"]
  by (simp add: eval_request eval_gateway research_def search_def extract_op_def
      get_context_def qna_def research_stream_def)


section \<open>Gateway: validation failures and admission denials\<close>

lemma validation_error_only:
  "ResearchRequest_new q m n inc exc = Inl e \<Longrightarrow> \<exists>fs. e = ValidationError fs"
  "SearchRequest_new q depth n inc exc ans raw = Inl e \<Longrightarrow> \<exists>fs. e = ValidationError fs"
  "ExtractRequest_new us imgs = Inl e \<Longrightarrow> \<exists>fs. e = ValidationError fs"
  by (auto simp: ResearchRequest_new_def SearchRequest_new_def ExtractRequest_new_def Let_def
      split: if_splits sum.splits)

lemma check_limits_denied:
  assumes "check_limits clk uid gw = (Inl e, gw1)"
  shows "(calls gw1 = calls gw @ [CanExecuteCalled]
          \<or> calls gw1 = calls gw @ [CanExecuteCalled, LimiterChecked uid])
         \<and> failures (circuit_breaker gw1) = failures (circuit_breaker gw)
         \<and> last_failure (circuit_breaker gw1) = last_failure (circuit_breaker gw)
         \<and> cache gw1 = cache gw \<and> usage_tracker gw1 = usage_tracker gw
         \<and> (e = CircuitOpenError ''Service temporarily unavailable''
              \<and> circuit_breaker gw1 = circuit_breaker gw \<and> rate_limiter gw1 = rate_limiter gw
            \<or> e = RateLimitError (''Rate limit exceeded for user '' @ uid)
              \<and> circuit_breaker gw1 = snd (can_execute (t_breaker clk) (circuit_breaker gw))
              \<and> (state (circuit_breaker gw1) = state (circuit_breaker gw)
                  \<or> state (circuit_breaker gw) = Open \<and> state (circuit_breaker gw1) = HalfOpen
                    \<and> real_of_int (timeout (circuit_breaker gw))
                        \<le> t_breaker clk - last_failure (circuit_breaker gw)))"
  using assms
  by (auto simp: check_limits_eq can_execute_fields split: if_splits)
     (auto simp: can_execute_def split: if_splits)


text \<open>
  C7, as the code has it. A request that fails validation raises before any breaker
  check, limiter check or upstream call, and leaves the gateway as it was: a
  \<open>ValidationError\<close> from the request models of \<^verbatim>\<open>research\<close>, \<^verbatim>\<open>search\<close>,
  \<^verbatim>\<open>extract\<close> (so for the URL \<^verbatim>\<open>ftp://bad\<close>) and the stream, a
  \<open>ResearchToolError\<close> for the empty query of \<^verbatim>\<open>get_context\<close> and \<^verbatim>\<open>qna\<close>.
  A call rejected by the breaker or by the limiter raises the rejection, makes no upstream
  attempt and leaves the failure count, the last failure time, the cache and the usage
  tracker as they were. After a rejection by the breaker the breaker and the limiter are
  unchanged. After a rejection by the limiter the breaker is what \<^verbatim>\<open>can_execute\<close>
  left: its state is unchanged, or it was \<open>Open\<close> with the timeout elapsed and is now
  \<open>HalfOpen\<close>.
\<close>

theorem validation_and_denial_frame:
  "(ResearchRequest_new q m n (or_empty inc) (or_empty exc) = Inl e \<longrightarrow>
      (\<exists>fs. e = ValidationError fs)
      \<and> research h clk up_r q m n inc exc uid gw = (Inl e, gw))
   \<and> (SearchRequest_new q depth n (or_empty inc) (or_empty exc) ans raw = Inl e \<longrightarrow>
      (\<exists>fs. e = ValidationError fs)
      \<and> search h clk up_s q depth n inc exc ans raw uid gw = (Inl e, gw))
   \<and> (ExtractRequest_new us imgs = Inl e \<longrightarrow>
      (\<exists>fs. e = ValidationError fs) \<and> extract_op clk up_x us imgs uid gw = (Inl e, gw))
   \<and> ExtractRequest_new [''ftp://bad''] imgs = Inl (ValidationError [''urls''])
   \<and> (ResearchRequest_new q m 10 [] [] = Inl e \<longrightarrow>
      (\<exists>fs. e = ValidationError fs)
      \<and> research_stream clk up_t q m uid gw = (([], Some e), gw))
   \<and> (q = [] \<or> strip q = [] \<longrightarrow>
      get_context clk up_c q max_tokens uid gw
        = (Inl (ResearchToolError ''query cannot be empty'' None), gw)
      \<and> qna clk up_c q uid gw = (Inl (ResearchToolError ''query cannot be empty'' None), gw))
   \<and> (check_limits clk uid gw = (Inl d, gw1) \<longrightarrow>
      (ResearchRequest_new q m n (or_empty inc) (or_empty exc) = Inr req \<longrightarrow>
         research h clk up_r q m n inc exc uid gw = (Inl d, gw1))
      \<and> (SearchRequest_new q depth n (or_empty inc) (or_empty exc) ans raw = Inr sreq \<longrightarrow>
         search h clk up_s q depth n inc exc ans raw uid gw = (Inl d, gw1))
      \<and> (ExtractRequest_new us imgs = Inr xreq \<longrightarrow>
         extract_op clk up_x us imgs uid gw = (Inl d, gw1))
      \<and> (ResearchRequest_new q m 10 [] [] = Inr stream_req \<longrightarrow>
         research_stream clk up_t q m uid gw = (([], Some d), gw1))
      \<and> (\<not> (q = [] \<or> strip q = []) \<longrightarrow>
         get_context clk up_c q max_tokens uid gw = (Inl d, gw1)
         \<and> qna clk up_c q uid gw = (Inl d, gw1))
      \<and> (calls gw1 = calls gw @ [CanExecuteCalled]
          \<or> calls gw1 = calls gw @ [CanExecuteCalled, LimiterChecked uid])
      \<and> failures (circuit_breaker gw1) = failures (circuit_breaker gw)
      \<and> last_failure (circuit_breaker gw1) = last_failure (circuit_breaker gw)
      \<and> cache gw1 = cache gw \<and> usage_tracker gw1 = usage_tracker gw
      \<and> (d = CircuitOpenError ''Service temporarily unavailable''
            \<and> circuit_breaker gw1 = circuit_breaker gw \<and> rate_limiter gw1 = rate_limiter gw
          \<or> d = RateLimitError (''Rate limit exceeded for user '' @ uid)
            \<and> circuit_breaker gw1 = snd (can_execute (t_breaker clk) (circuit_breaker gw))
            \<and> (state (circuit_breaker gw1) = state (circuit_breaker gw)
                \<or> state (circuit_breaker gw) = Open \<and> state (circuit_breaker gw1) = HalfOpen
                  \<and> real_of_int (timeout (circuit_breaker gw))
                      \<le> t_breaker clk - last_failure (circuit_breaker gw))))"
proof -
  have v1: "ResearchRequest_new q m n (or_empty inc) (or_empty exc) = Inl e \<longrightarrow>
      (\<exists>fs. e = ValidationError fs)
      \<and> research h clk up_r q m n inc exc uid gw = (Inl e, gw)"
    using validation_error_only(1) by (auto simp: research_def)
  have v2: "SearchRequest_new q depth n (or_empty inc) (or_empty exc) ans raw = Inl e \<longrightarrow>
      (\<exists>fs. e = ValidationError fs)
      \<and> search h clk up_s q depth n inc exc ans raw uid gw = (Inl e, gw)"
    using validation_error_only(2) by (auto simp: search_def)
  have v3: "ExtractRequest_new us imgs = Inl e \<longrightarrow>
      (\<exists>fs. e = ValidationError fs) \<and> extract_op clk up_x us imgs uid gw = (Inl e, gw)"
    using validation_error_only(3) by (auto simp: extract_op_def)
  have v4: "ExtractRequest_new [''ftp://bad''] imgs = Inl (ValidationError [''urls''])"
    by (simp add: ExtractRequest_new_def urls_valid_def startswith_def)
  have v5: "ResearchRequest_new q m 10 [] [] = Inl e \<longrightarrow>
      (\<exists>fs. e = ValidationError fs)
      \<and> research_stream clk up_t q m uid gw = (([], Some e), gw)"
    using validation_error_only(1) by (auto simp: research_stream_def)
  have v6: "q = [] \<or> strip q = [] \<longrightarrow>
      get_context clk up_c q max_tokens uid gw
        = (Inl (ResearchToolError ''query cannot be empty'' None), gw)
      \<and> qna clk up_c q uid gw = (Inl (ResearchToolError ''query cannot be empty'' None), gw)"
    by (simp add: get_context_def qna_def)
  have d: "check_limits clk uid gw = (Inl d, gw1) \<longrightarrow>
      (ResearchRequest_new q m n (or_empty inc) (or_empty exc) = Inr req \<longrightarrow>
         research h clk up_r q m n inc exc uid gw = (Inl d, gw1))
      \<and> (SearchRequest_new q depth n (or_empty inc) (or_empty exc) ans raw = Inr sreq \<longrightarrow>
         search h clk up_s q depth n inc exc ans raw uid gw = (Inl d, gw1))
      \<and> (ExtractRequest_new us imgs = Inr xreq \<longrightarrow>
         extract_op clk up_x us imgs uid gw = (Inl d, gw1))
      \<and> (ResearchRequest_new q m 10 [] [] = Inr stream_req \<longrightarrow>
         research_stream clk up_t q m uid gw = (([], Some d), gw1))
      \<and> (\<not> (q = [] \<or> strip q = []) \<longrightarrow>
         get_context clk up_c q max_tokens uid gw = (Inl d, gw1)
         \<and> qna clk up_c q uid gw = (Inl d, gw1))"
    by (simp add: research_def search_def extract_op_def research_stream_def get_context_def
        qna_def)
  have last: "check_limits clk uid gw = (Inl d, gw1) \<longrightarrow>
      (ResearchRequest_new q m n (or_empty inc) (or_empty exc) = Inr req \<longrightarrow>
         research h clk up_r q m n inc exc uid gw = (Inl d, gw1))
      \<and> (SearchRequest_new q depth n (or_empty inc) (or_empty exc) ans raw = Inr sreq \<longrightarrow>
         search h clk up_s q depth n inc exc ans raw uid gw = (Inl d, gw1))
      \<and> (ExtractRequest_new us imgs = Inr xreq \<longrightarrow>
         extract_op clk up_x us imgs uid gw = (Inl d, gw1))
      \<and> (ResearchRequest_new q m 10 [] [] = Inr stream_req \<longrightarrow>
         research_stream clk up_t q m uid gw = (([], Some d), gw1))
      \<and> (\<not> (q = [] \<or> strip q = []) \<longrightarrow>
         get_context clk up_c q max_tokens uid gw = (Inl d, gw1)
         \<and> qna clk up_c q uid gw = (Inl d, gw1))
      \<and> (calls gw1 = calls gw @ [CanExecuteCalled]
          \<or> calls gw1 = calls gw @ [CanExecuteCalled, LimiterChecked uid])
      \<and> failures (circuit_breaker gw1) = failures (circuit_breaker gw)
      \<and> last_failure (circuit_breaker gw1) = last_failure (circuit_breaker gw)
      \<and> cache gw1 = cache gw \<and> usage_tracker gw1 = usage_tracker gw
      \<and> (d = CircuitOpenError ''Service temporarily unavailable''
            \<and> circuit_breaker gw1 = circuit_breaker gw \<and> rate_limiter gw1 = rate_limiter gw
          \<or> d = RateLimitError (''Rate limit exceeded for user '' @ uid)
            \<and> circuit_breaker gw1 = snd (can_execute (t_breaker clk) (circuit_breaker gw))
            \<and> (state (circuit_breaker gw1) = state (circuit_breaker gw)
                \<or> state (circuit_breaker gw) = Open \<and> state (circuit_breaker gw1) = HalfOpen
                  \<and> real_of_int (timeout (circuit_breaker gw))
                      \<le> t_breaker clk - last_failure (circuit_breaker gw)))"
  proof
    assume h: "check_limits clk uid gw = (Inl d, gw1)"
    show "(ResearchRequest_new q m n (or_empty inc) (or_empty exc) = Inr req \<longrightarrow>
         research h clk up_r q m n inc exc uid gw = (Inl d, gw1))
      \<and> (SearchRequest_new q depth n (or_empty inc) (or_empty exc) ans raw = Inr sreq \<longrightarrow>
         search h clk up_s q depth n inc exc ans raw uid gw = (Inl d, gw1))
      \<and> (ExtractRequest_new us imgs = Inr xreq \<longrightarrow>
         extract_op clk up_x us imgs uid gw = (Inl d, gw1))
      \<and> (ResearchRequest_new q m 10 [] [] = Inr stream_req \<longrightarrow>
         research_stream clk up_t q m uid gw = (([], Some d), gw1))
      \<and> (\<not> (q = [] \<or> strip q = []) \<longrightarrow>
         get_context clk up_c q max_tokens uid gw = (Inl d, gw1)
         \<and> qna clk up_c q uid gw = (Inl d, gw1))
      \<and> (calls gw1 = calls gw @ [CanExecuteCalled]
          \<or> calls gw1 = calls gw @ [CanExecuteCalled, LimiterChecked uid])
      \<and> failures (circuit_breaker gw1) = failures (circuit_breaker gw)
      \<and> last_failure (circuit_breaker gw1) = last_failure (circuit_breaker gw)
      \<and> cache gw1 = cache gw \<and> usage_tracker gw1 = usage_tracker gw
      \<and> (d = CircuitOpenError ''Service temporarily unavailable''
            \<and> circuit_breaker gw1 = circuit_breaker gw \<and> rate_limiter gw1 = rate_limiter gw
          \<or> d = RateLimitError (''Rate limit exceeded for user '' @ uid)
            \<and> circuit_breaker gw1 = snd (can_execute (t_breaker clk) (circuit_breaker gw))
            \<and> (state (circuit_breaker gw1) = state (circuit_breaker gw)
                \<or> state (circuit_breaker gw) = Open \<and> state (circuit_breaker gw1) = HalfOpen
                  \<and> real_of_int (timeout (circuit_breaker gw))
                      \<le> t_breaker clk - last_failure (circuit_breaker gw)))"
      using d [rule_format, OF h] check_limits_denied [OF h]
      by (elim conjE) (intro conjI; assumption)
  qed
  show ?thesis
    by (intro conjI v1 v2 v3 v4 v5 v6 last)
qed


theorem validation_and_denial_frame_witness:
  "research id (clock_at 0) (\<lambda>n. Inl (TimeoutError ''slow'')) '' '' PRO 10 None None ''u1''
       sample_tool
     = (Inl (ValidationError [''query'']), sample_tool)
   \<and> extract_op (clock_at 0) (\<lambda>n. Inl (TimeoutError ''slow'')) [''ftp://bad''] False ''u1''
       sample_tool
     = (Inl (ValidationError [''urls'']), sample_tool)
   \<and> qna (clock_at 0) (Inr ''answer'') '' '' ''u1'' sample_tool
     = (Inl (ResearchToolError ''query cannot be empty'' None), sample_tool)
   \<and> qna (clock_at 2) (Inr ''answer'') ''x'' ''u1''
       (sample_tool\<lparr>circuit_breaker :=
          run_breaker [RecordFailure 1, RecordFailure 1] (circuit_breaker sample_tool)\<rparr>)
     = (Inl (CircuitOpenError ''Service temporarily unavailable''),
        sample_tool\<lparr>circuit_breaker :=
          run_breaker [RecordFailure 1, RecordFailure 1] (circuit_breaker sample_tool),
          calls := [CanExecuteCalled]\<rparr>)
   \<and> fst (qna (clock_at 10) (Inr ''answer'') ''x'' ''u1''
       (snd (qna (clock_at 0) (Inl (OtherException ''bad'')) ''x'' ''u1''
          (projr (ResearchTool_new 1 1 5 ''tvly-key'')))))
     = Inl (RateLimitError ''Rate limit exceeded for user u1'')
   \<and> failures (circuit_breaker (snd (qna (clock_at 10) (Inr ''answer'') ''x'' ''u1''
       (snd (qna (clock_at 0) (Inl (OtherException ''bad'')) ''x'' ''u1''
          (projr (ResearchTool_new 1 1 5 ''tvly-key''))))))) = 1"
  using validation_and_denial_frame
    [where q = "'' ''" and m = PRO and n = 10 and inc = None and exc = None
       and e = "ValidationError [''query'']" and h = id and clk = "clock_at 0"
       and up_r = "\<lambda>n. Inl (TimeoutError ''slow'')" and uid = "''u1''" and gw = sample_tool
       and up_c = "Inr ''answer''"]
    validation_and_denial_frame
    [where us = "[''ftp://bad'']" and imgs = False and e = "ValidationError [''urls'']"
       and clk = "clock_at 0" and up_x = "\<lambda>n. Inl (TimeoutError ''slow'')"
       and uid = "''u1''" and gw = sample_tool]
    validation_and_denial_frame
    [where q = "''x''" and clk = "clock_at 2" and uid = "''u1''" and up_c = "Inr ''answer''"
       and gw = "sample_tool\<lparr>circuit_breaker :=
          run_breaker [RecordFailure 1, RecordFailure 1] (circuit_breaker sample_tool)\<rparr>"
       and d = "CircuitOpenError ''Service temporarily unavailable''"
       and ?gw1.0 = "sample_tool\<lparr>circuit_breaker :=
          run_breaker [RecordFailure 1, RecordFailure 1] (circuit_breaker sample_tool),
          calls := [CanExecuteCalled]\<rparr>"]
    validation_and_denial_frame
    [where q = "''x''" and clk = "clock_at 10" and uid = "''u1''" and up_c = "Inr ''answer''"
       and gw = "snd (qna (clock_at 0) (Inl (OtherException ''bad'')) ''x'' ''u1''
          (projr (ResearchTool_new 1 1 5 ''tvly-key'')))"
       and d = "RateLimitError ''Rate limit exceeded for user u1''"
       and ?gw1.0 = "snd (check_limits (clock_at 10) ''u1''
          (snd (qna (clock_at 0) (Inl (OtherException ''bad'')) ''x'' ''u1''
            (projr (ResearchTool_new 1 1 5 ''tvly-key'')))))"]
  by (simp add: eval_request eval_gateway research_def extract_op_def qna_def)

text \<open>
  C7 as stated fails. With threshold 1, timeout 5 and cap 1, a failed \<^verbatim>\<open>qna\<close> call at
  time 0 opens the breaker and uses the caller's only slot. The next call at time 10 passes
  \<^verbatim>\<open>can_execute\<close>, which moves the breaker to \<open>HalfOpen\<close>, and is then rejected by the
  limiter: the rejected call has changed the breaker's state.
\<close>

theorem limiter_denial_changes_breaker_counterexample:
  "state (circuit_breaker
      (snd (qna (clock_at 0) (Inl (OtherException ''bad'')) ''x'' ''u1''
         (projr (ResearchTool_new 1 1 5 ''tvly-key''))))) = Open
   \<and> fst (qna (clock_at 10) (Inr ''answer'') ''x'' ''u1''
       (snd (qna (clock_at 0) (Inl (OtherException ''bad'')) ''x'' ''u1''
          (projr (ResearchTool_new 1 1 5 ''tvly-key'')))))
     = Inl (RateLimitError ''Rate limit exceeded for user u1'')
   \<and> state (circuit_breaker (snd (qna (clock_at 10) (Inr ''answer'') ''x'' ''u1''
       (snd (qna (clock_at 0) (Inl (OtherException ''bad'')) ''x'' ''u1''
          (projr (ResearchTool_new 1 1 5 ''tvly-key''))))))) = HalfOpen"
  by (simp add: eval_request eval_gateway qna_def)


section \<open>Gateway: cache hits\<close>

lemma cached_flag_mark: "cached_flag (mark_cached c)"
  by (cases c) simp_all

lemma check_limits_admitted:
  assumes "check_limits clk uid gw = (Inr (), gw1)"
  shows "gw1 = gw\<lparr>circuit_breaker := snd (can_execute (t_breaker clk) (circuit_breaker gw)),
                 rate_limiter := snd (check (t_limiter clk) uid (rate_limiter gw)),
                 calls := calls gw @ [CanExecuteCalled, LimiterChecked uid]\<rparr>"
  using assms by (auto simp: check_limits_eq split: if_splits)

lemma mark_entry_frame:
  "calls (mark_entry ck gw) = calls gw \<and> usage_tracker (mark_entry ck gw) = usage_tracker gw
   \<and> circuit_breaker (mark_entry ck gw) = circuit_breaker gw
   \<and> rate_limiter (mark_entry ck gw) = rate_limiter gw"
  by (simp add: mark_entry_def split: option.splits)

lemma get_cached_valid:
  "cache gw ck = Some entry \<Longrightarrow> now - ts entry < 3600 \<Longrightarrow> get_cached now ck gw = Some (data entry)"
  by (simp add: get_cached_def)

lemma research_hit:
  assumes "ResearchRequest_new q m n (or_empty inc) (or_empty exc) = Inr req"
    and "check_limits clk uid gw = (Inr (), gw1)"
    and "cache gw (research_cache_key h req) = Some entry"
    and "t_lookup clk - ts entry < 3600"
  shows "research h clk up q m n inc exc uid gw
           = (Inr (mark_cached (data entry)), mark_entry (research_cache_key h req) gw1)"
proof -
  have "cache gw1 = cache gw"
    using check_limits_admitted [OF assms(2)] by simp
  then have "get_cached (t_lookup clk) (research_cache_key h req) gw1 = Some (data entry)"
    using assms(3,4) by (simp add: get_cached_def)
  then show ?thesis
    using assms(1,2) by (simp add: research_def)
qed

lemma search_hit:
  assumes "SearchRequest_new q depth n (or_empty inc) (or_empty exc) ans raw = Inr req"
    and "check_limits clk uid gw = (Inr (), gw1)"
    and "cache gw (search_cache_key h req) = Some entry"
    and "t_lookup clk - ts entry < 3600"
  shows "search h clk up q depth n inc exc ans raw uid gw
           = (Inr (mark_cached (data entry)), mark_entry (search_cache_key h req) gw1)"
proof -
  have "cache gw1 = cache gw"
    using check_limits_admitted [OF assms(2)] by simp
  then have "get_cached (t_lookup clk) (search_cache_key h req) gw1 = Some (data entry)"
    using assms(3,4) by (simp add: get_cached_def)
  then show ?thesis
    using assms(1,2) by (simp add: search_def)
qed

text \<open>What a hit leaves, from the gateway \<open>gw\<close> before the call.\<close>

lemma hit_frame:
  assumes "check_limits clk uid gw = (Inr (), gw1)"
  shows "calls (mark_entry ck gw1) = calls gw @ [CanExecuteCalled, LimiterChecked uid]
         \<and> usage_tracker (mark_entry ck gw1) = usage_tracker gw
         \<and> circuit_breaker (mark_entry ck gw1)
             = snd (can_execute (t_breaker clk) (circuit_breaker gw))
         \<and> failures (circuit_breaker (mark_entry ck gw1)) = failures (circuit_breaker gw)
         \<and> last_failure (circuit_breaker (mark_entry ck gw1)) = last_failure (circuit_breaker gw)"
  using check_limits_admitted [OF assms] mark_entry_frame [of ck gw1]
  by (simp add: can_execute_fields)

text \<open>The limiter, the breaker's state and the cache after a hit.\<close>

lemma hit_limiter:
  assumes "check_limits clk uid gw = (Inr (), gw1)"
  shows "rate_limiter (mark_entry ck gw1) = snd (check (t_limiter clk) uid (rate_limiter gw))
         \<and> requests_of (rate_limiter (mark_entry ck gw1)) uid
             = filter (\<lambda>t. t_limiter clk - real_of_int (window_seconds (rate_limiter gw)) < t)
                 (requests_of (rate_limiter gw) uid) @ [t_limiter clk]
         \<and> (state (circuit_breaker (mark_entry ck gw1)) = state (circuit_breaker gw)
              \<or> state (circuit_breaker gw) = Open
                \<and> state (circuit_breaker (mark_entry ck gw1)) = HalfOpen
                \<and> real_of_int (timeout (circuit_breaker gw))
                    \<le> t_breaker clk - last_failure (circuit_breaker gw))"
proof -
  have adm: "fst (check (t_limiter clk) uid (rate_limiter gw))"
    using assms by (auto simp: check_limits_eq split: if_splits)
  have gw1: "rate_limiter (mark_entry ck gw1) = snd (check (t_limiter clk) uid (rate_limiter gw))"
    "circuit_breaker (mark_entry ck gw1) = snd (can_execute (t_breaker clk) (circuit_breaker gw))"
    using check_limits_admitted [OF assms] mark_entry_frame [of ck gw1] by simp_all
  have st: "state (snd (can_execute (t_breaker clk) (circuit_breaker gw)))
              = state (circuit_breaker gw)
            \<or> state (circuit_breaker gw) = Open
              \<and> state (snd (can_execute (t_breaker clk) (circuit_breaker gw))) = HalfOpen
              \<and> real_of_int (timeout (circuit_breaker gw))
                  \<le> t_breaker clk - last_failure (circuit_breaker gw)"
    by (simp add: can_execute_def)
  show ?thesis
    using adm st by (simp add: gw1 check_requests_of)
qed

lemma hit_cache:
  assumes "check_limits clk uid gw = (Inr (), gw1)" and "cache gw ck = Some entry"
  shows "cache (mark_entry ck gw1) = (cache gw)(ck \<mapsto> entry\<lparr>data := mark_cached (data entry)\<rparr>)"
  using check_limits_admitted [OF assms(1)] assms(2) by (simp add: mark_entry_def)

text \<open>A fresh result of \<^verbatim>\<open>research\<close>: the state it comes with.\<close>

lemma research_fresh:
  assumes "research h clk up q m n inc exc uid gw = (Inr r, gwA)" and "\<not> cached_flag r"
  shows "\<exists>req gw1 k. ResearchRequest_new q m n (or_empty inc) (or_empty exc) = Inr req
           \<and> check_limits clk uid gw = (Inr (), gw1)
           \<and> gwA = gw_record_success (gw_clear_cache
                 (set_cached (t_done clk) (research_cache_key h req) r (log_attempts k gw1)))"
  using assms
  by (auto simp: research_def Let_def cached_flag_mark
      split: sum.splits prod.splits option.splits)


lemma research_again:
  assumes first: "research h clk up q m n inc exc uid gw = (Inr r, gwA)" and fresh: "\<not> cached_flag r"
    and adm: "fst (check (t_limiter clk2) uid (rate_limiter gwA))"
    and soon: "t_lookup clk2 - t_done clk < 3600"
  shows "fst (research h clk2 up2 q m n inc exc uid gwA) = Inr (mark_cached r)
         \<and> calls (snd (research h clk2 up2 q m n inc exc uid gwA))
             = calls gwA @ [CanExecuteCalled, LimiterChecked uid]
         \<and> rate_limiter (snd (research h clk2 up2 q m n inc exc uid gwA))
             = snd (check (t_limiter clk2) uid (rate_limiter gwA))"
proof -
  from research_fresh [OF first fresh] obtain req gw1 k
    where req: "ResearchRequest_new q m n (or_empty inc) (or_empty exc) = Inr req"
      and gwA: "gwA = gw_record_success (gw_clear_cache
                 (set_cached (t_done clk) (research_cache_key h req) r (log_attempts k gw1)))"
    by blast
  let ?ck = "research_cache_key h req"
  have closed: "state (circuit_breaker gwA) = Closed"
    by (simp add: gwA gw_record_success_def record_success_def)
  have entry: "cache gwA ?ck = Some \<lparr>data = r, ts = t_done clk\<rparr>"
    by (simp add: gwA gw_record_success_def gw_clear_cache_def set_cached_def)
  obtain gwB where lim: "check_limits clk2 uid gwA = (Inr (), gwB)"
    using closed adm by (simp add: check_limits_eq can_execute_def)
  have "research h clk2 up2 q m n inc exc uid gwA
          = (Inr (mark_cached (data \<lparr>data = r, ts = t_done clk\<rparr>)), mark_entry ?ck gwB)"
    using soon by (intro research_hit [OF req lim entry]) simp
  then show ?thesis
    using hit_frame [OF lim, of ?ck] hit_limiter [OF lim, of ?ck] by simp
qed

text \<open>
  C5, as the code has it. For \<^verbatim>\<open>research\<close> and \<^verbatim>\<open>search\<close>: when the request is
  valid, the admission checks let the call through, and the cache holds under the
  request's key an entry less than 3600 seconds old, the call returns the cached result
  with its \<^verbatim>\<open>cached\<close> flag set; the calls it has made are \<^verbatim>\<open>can_execute\<close> and the
  limiter's \<^verbatim>\<open>check\<close> only (no upstream attempt, no \<^verbatim>\<open>record_success\<close>, no
  \<^verbatim>\<open>record_failure\<close>); the usage tracker, the failure count and the last failure time
  are unchanged, and the breaker is as \<^verbatim>\<open>can_execute\<close> left it: its state is
  unchanged, or it was \<open>Open\<close> with the timeout elapsed and is now \<open>HalfOpen\<close>. The
  limiter is as \<^verbatim>\<open>check\<close> left it: it has pruned the caller's list and recorded the
  call. The cache is as it was but for the flag set on the entry returned. In particular,
  after a \<^verbatim>\<open>research\<close> that returned a fresh result, the same call again, admitted by
  the limiter and looked up less than 3600 seconds after the result was stored, returns
  that result with the flag set, makes no upstream attempt and is recorded by the limiter.
\<close>

theorem cache_hit_short_circuits:
  "(ResearchRequest_new q m n (or_empty inc) (or_empty exc) = Inr req
      \<and> check_limits clk uid gw = (Inr (), gw1)
      \<and> cache gw (research_cache_key h req) = Some entry
      \<and> t_lookup clk - ts entry < 3600 \<longrightarrow>
        fst (research h clk up q m n inc exc uid gw) = Inr (mark_cached (data entry))
        \<and> cached_flag (mark_cached (data entry))
        \<and> calls (snd (research h clk up q m n inc exc uid gw))
            = calls gw @ [CanExecuteCalled, LimiterChecked uid]
        \<and> usage_tracker (snd (research h clk up q m n inc exc uid gw)) = usage_tracker gw
        \<and> circuit_breaker (snd (research h clk up q m n inc exc uid gw))
            = snd (can_execute (t_breaker clk) (circuit_breaker gw))
        \<and> failures (circuit_breaker (snd (research h clk up q m n inc exc uid gw)))
            = failures (circuit_breaker gw)
        \<and> last_failure (circuit_breaker (snd (research h clk up q m n inc exc uid gw)))
            = last_failure (circuit_breaker gw)
        \<and> rate_limiter (snd (research h clk up q m n inc exc uid gw))
            = snd (check (t_limiter clk) uid (rate_limiter gw))
        \<and> requests_of (rate_limiter (snd (research h clk up q m n inc exc uid gw))) uid
            = filter (\<lambda>t. t_limiter clk - real_of_int (window_seconds (rate_limiter gw)) < t)
                (requests_of (rate_limiter gw) uid) @ [t_limiter clk]
        \<and> cache (snd (research h clk up q m n inc exc uid gw))
            = (cache gw)(research_cache_key h req \<mapsto> entry\<lparr>data := mark_cached (data entry)\<rparr>)
        \<and> (state (circuit_breaker (snd (research h clk up q m n inc exc uid gw)))
              = state (circuit_breaker gw)
            \<or> state (circuit_breaker gw) = Open
              \<and> state (circuit_breaker (snd (research h clk up q m n inc exc uid gw))) = HalfOpen
              \<and> real_of_int (timeout (circuit_breaker gw))
                  \<le> t_breaker clk - last_failure (circuit_breaker gw)))
   \<and> (SearchRequest_new q depth n (or_empty inc) (or_empty exc) ans raw = Inr sreq
      \<and> check_limits clk uid gw = (Inr (), gw1)
      \<and> cache gw (search_cache_key h sreq) = Some entry
      \<and> t_lookup clk - ts entry < 3600 \<longrightarrow>
        fst (search h clk up_s q depth n inc exc ans raw uid gw) = Inr (mark_cached (data entry))
        \<and> cached_flag (mark_cached (data entry))
        \<and> calls (snd (search h clk up_s q depth n inc exc ans raw uid gw))
            = calls gw @ [CanExecuteCalled, LimiterChecked uid]
        \<and> usage_tracker (snd (search h clk up_s q depth n inc exc ans raw uid gw))
            = usage_tracker gw
        \<and> circuit_breaker (snd (search h clk up_s q depth n inc exc ans raw uid gw))
            = snd (can_execute (t_breaker clk) (circuit_breaker gw))
        \<and> failures (circuit_breaker (snd (search h clk up_s q depth n inc exc ans raw uid gw)))
            = failures (circuit_breaker gw)
        \<and> last_failure (circuit_breaker (snd (search h clk up_s q depth n inc exc ans raw uid gw)))
            = last_failure (circuit_breaker gw)
        \<and> rate_limiter (snd (search h clk up_s q depth n inc exc ans raw uid gw))
            = snd (check (t_limiter clk) uid (rate_limiter gw))
        \<and> requests_of (rate_limiter (snd (search h clk up_s q depth n inc exc ans raw uid gw))) uid
            = filter (\<lambda>t. t_limiter clk - real_of_int (window_seconds (rate_limiter gw)) < t)
                (requests_of (rate_limiter gw) uid) @ [t_limiter clk]
        \<and> cache (snd (search h clk up_s q depth n inc exc ans raw uid gw))
            = (cache gw)(search_cache_key h sreq \<mapsto> entry\<lparr>data := mark_cached (data entry)\<rparr>)
        \<and> (state (circuit_breaker (snd (search h clk up_s q depth n inc exc ans raw uid gw)))
              = state (circuit_breaker gw)
            \<or> state (circuit_breaker gw) = Open
              \<and> state (circuit_breaker (snd (search h clk up_s q depth n inc exc ans raw uid gw))) = HalfOpen
              \<and> real_of_int (timeout (circuit_breaker gw))
                  \<le> t_breaker clk - last_failure (circuit_breaker gw)))
   \<and> (research h clk up q m n inc exc uid gw = (Inr r, gwA) \<and> \<not> cached_flag r
      \<and> fst (check (t_limiter clk2) uid (rate_limiter gwA))
      \<and> t_lookup clk2 - t_done clk < 3600 \<longrightarrow>
        fst (research h clk2 up2 q m n inc exc uid gwA) = Inr (mark_cached r)
        \<and> cached_flag (mark_cached r)
        \<and> calls (snd (research h clk2 up2 q m n inc exc uid gwA))
            = calls gwA @ [CanExecuteCalled, LimiterChecked uid]
        \<and> rate_limiter (snd (research h clk2 up2 q m n inc exc uid gwA))
            = snd (check (t_limiter clk2) uid (rate_limiter gwA)))"
proof (intro conjI impI; (elim conjE)?)
  assume a: "ResearchRequest_new q m n (or_empty inc) (or_empty exc) = Inr req"
    "check_limits clk uid gw = (Inr (), gw1)"
    "cache gw (research_cache_key h req) = Some entry" "t_lookup clk - ts entry < 3600"
  note r = research_hit [OF a, of up] hit_frame [OF a(2), of "research_cache_key h req"]
  show "fst (research h clk up q m n inc exc uid gw) = Inr (mark_cached (data entry))"
       "calls (snd (research h clk up q m n inc exc uid gw))
          = calls gw @ [CanExecuteCalled, LimiterChecked uid]"
       "usage_tracker (snd (research h clk up q m n inc exc uid gw)) = usage_tracker gw"
       "circuit_breaker (snd (research h clk up q m n inc exc uid gw))
          = snd (can_execute (t_breaker clk) (circuit_breaker gw))"
       "failures (circuit_breaker (snd (research h clk up q m n inc exc uid gw)))
          = failures (circuit_breaker gw)"
       "last_failure (circuit_breaker (snd (research h clk up q m n inc exc uid gw)))
          = last_failure (circuit_breaker gw)"
    using r by (simp_all add: can_execute_fields)
  have eq: "snd (research h clk up q m n inc exc uid gw) = mark_entry (research_cache_key h req) gw1"
    using research_hit [OF a, of up] by simp
  show "rate_limiter (snd (research h clk up q m n inc exc uid gw))
          = snd (check (t_limiter clk) uid (rate_limiter gw))"
       "requests_of (rate_limiter (snd (research h clk up q m n inc exc uid gw))) uid
          = filter (\<lambda>t. t_limiter clk - real_of_int (window_seconds (rate_limiter gw)) < t)
              (requests_of (rate_limiter gw) uid) @ [t_limiter clk]"
       "state (circuit_breaker (snd (research h clk up q m n inc exc uid gw)))
            = state (circuit_breaker gw)
          \<or> state (circuit_breaker gw) = Open
            \<and> state (circuit_breaker (snd (research h clk up q m n inc exc uid gw))) = HalfOpen
            \<and> real_of_int (timeout (circuit_breaker gw))
                \<le> t_breaker clk - last_failure (circuit_breaker gw)"
    unfolding eq using hit_limiter [OF a(2), of "research_cache_key h req"] by blast+
  show "cache (snd (research h clk up q m n inc exc uid gw))
          = (cache gw)(research_cache_key h req \<mapsto> entry\<lparr>data := mark_cached (data entry)\<rparr>)"
    unfolding eq by (rule hit_cache [OF a(2) a(3)])
next
  assume a: "SearchRequest_new q depth n (or_empty inc) (or_empty exc) ans raw = Inr sreq"
    "check_limits clk uid gw = (Inr (), gw1)"
    "cache gw (search_cache_key h sreq) = Some entry" "t_lookup clk - ts entry < 3600"
  note r = search_hit [OF a, of up_s] hit_frame [OF a(2), of "search_cache_key h sreq"]
  show "fst (search h clk up_s q depth n inc exc ans raw uid gw) = Inr (mark_cached (data entry))"
       "calls (snd (search h clk up_s q depth n inc exc ans raw uid gw))
          = calls gw @ [CanExecuteCalled, LimiterChecked uid]"
       "usage_tracker (snd (search h clk up_s q depth n inc exc ans raw uid gw)) = usage_tracker gw"
       "circuit_breaker (snd (search h clk up_s q depth n inc exc ans raw uid gw))
          = snd (can_execute (t_breaker clk) (circuit_breaker gw))"
       "failures (circuit_breaker (snd (search h clk up_s q depth n inc exc ans raw uid gw)))
          = failures (circuit_breaker gw)"
       "last_failure (circuit_breaker (snd (search h clk up_s q depth n inc exc ans raw uid gw)))
          = last_failure (circuit_breaker gw)"
    using r by (simp_all add: can_execute_fields)
  have eq: "snd (search h clk up_s q depth n inc exc ans raw uid gw) = mark_entry (search_cache_key h sreq) gw1"
    using search_hit [OF a, of up_s] by simp
  show "rate_limiter (snd (search h clk up_s q depth n inc exc ans raw uid gw))
          = snd (check (t_limiter clk) uid (rate_limiter gw))"
       "requests_of (rate_limiter (snd (search h clk up_s q depth n inc exc ans raw uid gw))) uid
          = filter (\<lambda>t. t_limiter clk - real_of_int (window_seconds (rate_limiter gw)) < t)
              (requests_of (rate_limiter gw) uid) @ [t_limiter clk]"
       "state (circuit_breaker (snd (search h clk up_s q depth n inc exc ans raw uid gw)))
            = state (circuit_breaker gw)
          \<or> state (circuit_breaker gw) = Open
            \<and> state (circuit_breaker (snd (search h clk up_s q depth n inc exc ans raw uid gw))) = HalfOpen
            \<and> real_of_int (timeout (circuit_breaker gw))
                \<le> t_breaker clk - last_failure (circuit_breaker gw)"
    unfolding eq using hit_limiter [OF a(2), of "search_cache_key h sreq"] by blast+
  show "cache (snd (search h clk up_s q depth n inc exc ans raw uid gw))
          = (cache gw)(search_cache_key h sreq \<mapsto> entry\<lparr>data := mark_cached (data entry)\<rparr>)"
    unfolding eq by (rule hit_cache [OF a(2) a(3)])
next
  assume a: "research h clk up q m n inc exc uid gw = (Inr r, gwA)" "\<not> cached_flag r"
    "fst (check (t_limiter clk2) uid (rate_limiter gwA))" "t_lookup clk2 - t_done clk < 3600"
  show "fst (research h clk2 up2 q m n inc exc uid gwA) = Inr (mark_cached r)"
       "calls (snd (research h clk2 up2 q m n inc exc uid gwA))
          = calls gwA @ [CanExecuteCalled, LimiterChecked uid]"
       "rate_limiter (snd (research h clk2 up2 q m n inc exc uid gwA))
          = snd (check (t_limiter clk2) uid (rate_limiter gwA))"
    using research_again [OF a, of up2] by simp_all
qed (simp_all add: cached_flag_mark)


lemma sample_request_eq:
  "ResearchRequest_new ''x'' PRO 10 [] [] = Inr sample_request"
  by (simp add: eval_request sample_request_def)


lemma after_research_eq:
  "after_research =
     \<lparr>circuit_breaker =
        \<lparr>threshold = 2, timeout = 5, failures = 0, last_failure = 0, state = Closed\<rparr>,
      rate_limiter = \<lparr>max_requests = 30, window_seconds = 60, requests = [''u1'' \<mapsto> [0]]\<rparr>,
      usage_tracker = \<lparr>api_key = ''tvly-key'', cached_usage = None, remote_calls = 0\<rparr>,
      cache = [research_cache_key id sample_request \<mapsto>
        \<lparr>data = ResearchPayload (research_result sample_request sample_research_data), ts = 1\<rparr>],
      calls = [CanExecuteCalled, LimiterChecked ''u1'', UpstreamAttempt,
        CacheStored (research_cache_key id sample_request), UsageCacheCleared, SuccessRecorded]\<rparr>"
  by (simp add: after_research_def research_def eval_gateway every_attempt_def or_empty_def
      sample_request_eq Let_def sample_research_data_def sample_request_def)


lemma first_research_result:
  "fst (research id (clock_at 0) (every_attempt (Inr sample_research_data)) ''x'' PRO 10 None
          None ''u1'' sample_tool)
     = Inr (ResearchPayload (research_result sample_request sample_research_data))"
  by (simp add: research_def eval_gateway every_attempt_def or_empty_def sample_request_eq Let_def)

lemma admitted_again:
  "check_limits (clock_at 2) ''u1'' after_research
     = (Inr (), snd (check_limits (clock_at 2) ''u1'' after_research))"
  by (simp add: after_research_eq check_limits_eq can_execute_def check_def requests_of_def
      clock_at_def)

lemma sample_search_request_eq:
  "SearchRequest_new ''x'' ''basic'' 10 [] [] True False = Inr sample_search_request"
  by (simp add: eval_request sample_search_request_def)

lemma after_search_eq:
  "after_search =
     \<lparr>circuit_breaker =
        \<lparr>threshold = 2, timeout = 5, failures = 0, last_failure = 0, state = Closed\<rparr>,
      rate_limiter = \<lparr>max_requests = 30, window_seconds = 60, requests = [''u1'' \<mapsto> [0]]\<rparr>,
      usage_tracker = \<lparr>api_key = ''tvly-key'', cached_usage = None, remote_calls = 0\<rparr>,
      cache = [search_cache_key id sample_search_request \<mapsto>
        \<lparr>data = SearchPayload (search_result sample_search_request sample_search_data), ts = 1\<rparr>],
      calls = [CanExecuteCalled, LimiterChecked ''u1'', UpstreamAttempt,
        CacheStored (search_cache_key id sample_search_request), UsageCacheCleared,
        SuccessRecorded]\<rparr>"
  by (simp add: after_search_def search_def eval_gateway every_attempt_def or_empty_def
      sample_search_request_eq Let_def sample_search_data_def sample_search_request_def)

lemma search_admitted_again:
  "check_limits (clock_at 2) ''u1'' after_search
     = (Inr (), snd (check_limits (clock_at 2) ''u1'' after_search))"
  by (simp add: after_search_eq check_limits_eq can_execute_def check_def requests_of_def
      clock_at_def)

lemma fresh_sample: "\<not> cached_flag (ResearchPayload (research_result sample_request sample_research_data))"
  by (simp add: research_result_def)

theorem cache_hit_short_circuits_witness:
  "fst (research id (clock_at 2) (every_attempt (Inl (OtherException ''unused''))) ''x'' PRO 10
         None None ''u1'' after_research)
     = Inr (mark_cached (ResearchPayload (research_result sample_request sample_research_data)))
   \<and> cached_flag (mark_cached
         (ResearchPayload (research_result sample_request sample_research_data)))
   \<and> calls (snd (research id (clock_at 2) (every_attempt (Inl (OtherException ''unused'')))
         ''x'' PRO 10 None None ''u1'' after_research))
     = calls after_research @ [CanExecuteCalled, LimiterChecked ''u1'']
   \<and> usage_tracker (snd (research id (clock_at 2)
         (every_attempt (Inl (OtherException ''unused''))) ''x'' PRO 10 None None ''u1''
         after_research))
     = usage_tracker after_research
   \<and> requests_of (rate_limiter (snd (research id (clock_at 2)
         (every_attempt (Inl (OtherException ''unused''))) ''x'' PRO 10 None None ''u1''
         after_research))) ''u1''
     = [0, 2]
   \<and> fst (search id (clock_at 2) (every_attempt (Inl (OtherException ''unused''))) ''x''
         ''basic'' 10 None None True False ''u1'' after_search)
     = Inr (mark_cached (SearchPayload (search_result sample_search_request sample_search_data)))
   \<and> calls (snd (search id (clock_at 2) (every_attempt (Inl (OtherException ''unused'')))
         ''x'' ''basic'' 10 None None True False ''u1'' after_search))
     = calls after_search @ [CanExecuteCalled, LimiterChecked ''u1'']"
proof -
  have adm: "fst (check (t_limiter (clock_at 2)) ''u1'' (rate_limiter after_research))"
    by (simp add: after_research_eq check_def requests_of_def clock_at_def)
  have soon: "t_lookup (clock_at 2) - t_done (clock_at 0) < 3600"
    by (simp add: clock_at_def)
  have first: "research id (clock_at 0) (every_attempt (Inr sample_research_data)) ''x'' PRO 10
      None None ''u1'' sample_tool
      = (Inr (ResearchPayload (research_result sample_request sample_research_data)),
         after_research)"
    using first_research_result by (simp add: after_research_def prod_eq_iff)
  have req: "ResearchRequest_new ''x'' PRO 10 (or_empty None) (or_empty None) = Inr sample_request"
    by (simp add: or_empty_def sample_request_eq)
  have entry: "cache after_research (research_cache_key id sample_request)
      = Some \<lparr>data = ResearchPayload (research_result sample_request sample_research_data),
               ts = 1\<rparr>"
    by (simp add: after_research_eq)
  have valid: "t_lookup (clock_at 2)
      - ts \<lparr>data = ResearchPayload (research_result sample_request sample_research_data),
             ts = 1\<rparr> < 3600"
    by (simp add: clock_at_def)
  note again = cache_hit_short_circuits
    [where h = id and clk = "clock_at 0" and uid = "''u1''" and gw = sample_tool
       and q = "''x''" and m = PRO and n = 10 and inc = None and exc = None
       and up = "every_attempt (Inr sample_research_data)"
       and r = "ResearchPayload (research_result sample_request sample_research_data)"
       and gwA = after_research and ?clk2.0 = "clock_at 2"
       and ?up2.0 = "every_attempt (Inl (OtherException ''unused''))",
     THEN conjunct2, THEN conjunct2, rule_format, OF conjI [OF first conjI [OF fresh_sample
       conjI [OF adm soon]]]]
  note hit = cache_hit_short_circuits
    [where h = id and clk = "clock_at 2" and uid = "''u1''" and gw = after_research
       and q = "''x''" and m = PRO and n = 10 and inc = None and exc = None
       and req = sample_request
       and ?gw1.0 = "snd (check_limits (clock_at 2) ''u1'' after_research)"
       and entry = "\<lparr>data = ResearchPayload (research_result sample_request sample_research_data),
                      ts = 1\<rparr>"
       and up = "every_attempt (Inl (OtherException ''unused''))",
     THEN conjunct1, rule_format, OF conjI [OF req conjI [OF admitted_again
       conjI [OF entry valid]]]]
  have sreq: "SearchRequest_new ''x'' ''basic'' 10 (or_empty None) (or_empty None) True False
      = Inr sample_search_request"
    by (simp add: or_empty_def sample_search_request_eq)
  have sentry: "cache after_search (search_cache_key id sample_search_request)
      = Some \<lparr>data = SearchPayload (search_result sample_search_request sample_search_data),
               ts = 1\<rparr>"
    by (simp add: after_search_eq)
  have svalid: "t_lookup (clock_at 2)
      - ts \<lparr>data = SearchPayload (search_result sample_search_request sample_search_data),
             ts = 1\<rparr> < 3600"
    by (simp add: clock_at_def)
  note shit = cache_hit_short_circuits
    [where h = id and clk = "clock_at 2" and uid = "''u1''" and gw = after_search
       and q = "''x''" and depth = "''basic''" and n = 10 and inc = None and exc = None
       and ans = True and raw = False and sreq = sample_search_request
       and ?gw1.0 = "snd (check_limits (clock_at 2) ''u1'' after_search)"
       and entry = "\<lparr>data = SearchPayload (search_result sample_search_request
                      sample_search_data), ts = 1\<rparr>"
       and up_s = "every_attempt (Inl (OtherException ''unused''))",
     THEN conjunct2, THEN conjunct1, rule_format, OF conjI [OF sreq conjI [OF search_admitted_again
       conjI [OF sentry svalid]]]]
  have lim: "requests_of (snd (check (t_limiter (clock_at 2)) ''u1'' (rate_limiter after_research)))
      ''u1'' = [0, 2]"
    by (simp add: after_research_eq check_def requests_of_def clock_at_def)
  show ?thesis
    using again hit shit lim by simp
qed


lemma breaker_tripped_eq:
  "breaker_tripped =
     after_research\<lparr>circuit_breaker :=
        \<lparr>threshold = 2, timeout = 5, failures = 2, last_failure = 4, state = Open\<rparr>,
      rate_limiter :=
        \<lparr>max_requests = 30, window_seconds = 60, requests = [''u1'' \<mapsto> [0, 2, 3]]\<rparr>,
      calls := calls after_research
        @ [CanExecuteCalled, LimiterChecked ''u1'', UpstreamAttempt, FailureRecorded,
           CanExecuteCalled, LimiterChecked ''u1'', UpstreamAttempt, FailureRecorded]\<rparr>"
  by (simp add: breaker_tripped_def qna_def eval_request after_research_eq check_limits_eq
      can_execute_def check_def requests_of_def clock_at_def gw_record_failure_def
      log_attempts_def record_failure_def)

lemma tripped_admits:
  "check_limits (clock_at 10) ''u1'' breaker_tripped
     = (Inr (), snd (check_limits (clock_at 10) ''u1'' breaker_tripped))"
  by (simp add: breaker_tripped_eq after_research_eq check_limits_eq can_execute_def check_def
      requests_of_def clock_at_def)

text \<open>
  C5 as stated fails: a call served from the cache can change the breaker's state. In the
  sample tool, after a successful \<^verbatim>\<open>research\<close> of \<^verbatim>\<open>x\<close> and two failed calls
  that open the breaker (last failure at time 4, timeout 5), the \<^verbatim>\<open>research\<close> of
  \<^verbatim>\<open>x\<close> at time 10 is admitted and returns the cached result, and the breaker,
  \<open>Open\<close> before the call, is \<open>HalfOpen\<close> after it.
\<close>

theorem cache_hit_moves_breaker_counterexample:
  "state (circuit_breaker breaker_tripped) = Open
   \<and> fst (research id (clock_at 10) (every_attempt (Inl (OtherException ''unused''))) ''x'' PRO
         10 None None ''u1'' breaker_tripped)
     = Inr (mark_cached (ResearchPayload (research_result sample_request sample_research_data)))
   \<and> state (circuit_breaker (snd (research id (clock_at 10)
         (every_attempt (Inl (OtherException ''unused''))) ''x'' PRO 10 None None ''u1''
         breaker_tripped)))
     = HalfOpen"
proof -
  have req: "ResearchRequest_new ''x'' PRO 10 (or_empty None) (or_empty None) = Inr sample_request"
    by (simp add: or_empty_def sample_request_eq)
  have entry: "cache breaker_tripped (research_cache_key id sample_request)
      = Some \<lparr>data = ResearchPayload (research_result sample_request sample_research_data),
               ts = 1\<rparr>"
    by (simp add: breaker_tripped_eq after_research_eq)
  have valid: "t_lookup (clock_at 10)
      - ts \<lparr>data = ResearchPayload (research_result sample_request sample_research_data),
             ts = 1\<rparr> < 3600"
    by (simp add: clock_at_def)
  have opened: "state (circuit_breaker breaker_tripped) = Open"
    by (simp add: breaker_tripped_eq)
  have probe: "state (snd (can_execute (t_breaker (clock_at 10)) (circuit_breaker breaker_tripped)))
      = HalfOpen"
    by (simp add: breaker_tripped_eq can_execute_def clock_at_def)
  note hit = research_hit [OF req tripped_admits entry valid,
      of "every_attempt (Inl (OtherException ''unused''))"]
    hit_frame [OF tripped_admits, of "research_cache_key id sample_request"]
  show ?thesis
    using hit opened probe by simp
qed

section \<open>Usage tracker\<close>


















section \<open>The cache key: facts and the claim\<close>

lemma sort_permutation:
  fixes xs ys :: "('a :: linorder) list"
  assumes "mset xs = mset ys"
  shows "sort xs = sort ys"
  using assms by (intro properties_for_sort) simp_all

lemma sorted_research_kwargs:
  "sort [(''query'', q), (''model'', model_value m)] = [(''model'', model_value m), (''query'', q)]"
  by (simp add: less_eq_prod_def less_prod_def)

lemma sorted_search_kwargs:
  "sort [(''query'', q), (''depth'', d)] = [(''depth'', d), (''query'', q)]"
  by (simp add: less_eq_prod_def less_prod_def)

lemma hex_digit_inj:
  "\<forall>a \<in> set [0..<16]. \<forall>b \<in> set [0..<16]. hex_digit a = hex_digit b \<longrightarrow> a = b"
  by code_simp

lemma hex_digits_char:
  assumes "hex_digit (of_char c div 16) = hex_digit (of_char c' div 16)"
    and "hex_digit (of_char c) = hex_digit (of_char c')"
  shows "c = c'"
proof -
  have lt: "(of_char c :: nat) < 256" "(of_char c' :: nat) < 256"
    by (simp_all add: of_char_def)
  have d: "(of_char c :: nat) div 16 = of_char c' div 16"
    using hex_digit_inj assms(1) lt by (simp add: less_mult_imp_div_less)
  have "hex_digit (of_char c mod 16) = hex_digit (of_char c' mod 16)"
    using assms(2) by (simp add: hex_digit_def)
  then have m: "(of_char c :: nat) mod 16 = of_char c' mod 16"
    using hex_digit_inj by simp
  have "(of_char c :: nat) = of_char c'"
    using d m by (metis div_mult_mod_eq)
  then show ?thesis by simp
qed

lemma repr_char_prefix_free:
  assumes "q = CHR 0x27 \<or> q = CHR 0x22" and "repr_char q c @ u = repr_char q c' @ u'"
  shows "c = c'"
  using assms hex_digits_char [of c c']
  by (auto simp: repr_char_def split: if_splits)

lemma repr_char_nonempty: "repr_char q c \<noteq> []"
  by (simp add: repr_char_def)

lemma concat_repr_inj:
  assumes "q = CHR 0x27 \<or> q = CHR 0x22"
  shows "concat (map (repr_char q) s) = concat (map (repr_char q) s') \<Longrightarrow> s = s'"
proof (induction s arbitrary: s')
  case Nil
  then show ?case
    by (cases s') (simp_all add: repr_char_nonempty)
next
  case (Cons c cs)
  show ?case
  proof (cases s')
    case Nil
    with Cons.prems show ?thesis by (simp add: repr_char_nonempty)
  next
    case (Cons c' cs')
    with Cons.prems have e: "repr_char q c @ concat (map (repr_char q) cs)
        = repr_char q c' @ concat (map (repr_char q) cs')"
      by simp
    then have "c = c'"
      by (rule repr_char_prefix_free [OF assms])
    with e Cons.IH [of cs'] Cons show ?thesis by simp
  qed
qed

lemma quote_of_cases: "quote_of s = CHR 0x27 \<or> quote_of s = CHR 0x22"
  by (simp add: quote_of_def)

lemma py_repr_inj: "py_repr s = py_repr s' \<Longrightarrow> s = s'"
proof -
  assume a: "py_repr s = py_repr s'"
  then have q: "quote_of s = quote_of s'"
    by (simp add: py_repr_def Let_def)
  with a have "concat (map (repr_char (quote_of s)) s) = concat (map (repr_char (quote_of s)) s')"
    by (simp add: py_repr_def Let_def)
  then show "s = s'"
    by (rule concat_repr_inj [OF quote_of_cases])
qed

lemma py_repr_models:
  "py_repr ''mini'' = [CHR 0x27] @ ''mini'' @ [CHR 0x27]"
  "py_repr ''pro'' = [CHR 0x27] @ ''pro'' @ [CHR 0x27]"
  "py_repr ''auto'' = [CHR 0x27] @ ''auto'' @ [CHR 0x27]"
  "py_repr ''basic'' = [CHR 0x27] @ ''basic'' @ [CHR 0x27]"
  "py_repr ''advanced'' = [CHR 0x27] @ ''advanced'' @ [CHR 0x27]"
  by (simp_all add: py_repr_def quote_of_def repr_char_def is_printable_def Let_def)

lemma research_data_inj:
  assumes "cache_key_data ''research'' [(''query'', q), (''model'', model_value m)]
         = cache_key_data ''research'' [(''query'', q'), (''model'', model_value m')]"
  shows "q = q' \<and> m = m'"
proof -
  have e: "py_repr (model_value m) @ ''), ('' @ py_repr ''query'' @ '', '' @ py_repr q
         = py_repr (model_value m') @ ''), ('' @ py_repr ''query'' @ '', '' @ py_repr q'"
    using assms
    by (simp add: cache_key_data_def sorted_research_kwargs repr_items_def repr_item_def)
  have m: "m = m'"
    using e by (cases m; cases m') (simp_all add: py_repr_models)
  with e have "py_repr q = py_repr q'" by simp
  with m show ?thesis by (simp add: py_repr_inj)
qed

lemma search_data_inj:
  assumes "cache_key_data ''search'' [(''query'', q), (''depth'', d)]
         = cache_key_data ''search'' [(''query'', q'), (''depth'', d')]"
    and "d = ''basic'' \<or> d = ''advanced''" and "d' = ''basic'' \<or> d' = ''advanced''"
  shows "q = q' \<and> d = d'"
proof -
  have e: "py_repr d @ ''), ('' @ py_repr ''query'' @ '', '' @ py_repr q
         = py_repr d' @ ''), ('' @ py_repr ''query'' @ '', '' @ py_repr q'"
    using assms(1)
    by (simp add: cache_key_data_def sorted_search_kwargs repr_items_def repr_item_def)
  have d: "d = d'"
    using e assms(2,3) by (auto simp: py_repr_models)
  with e have "py_repr q = py_repr q'" by simp
  with d show ?thesis by (simp add: py_repr_inj)
qed

lemma operation_names_differ:
  "cache_key_data ''research'' kw \<noteq> cache_key_data ''search'' kw'"
  by (simp add: cache_key_data_def)

text \<open>
  C9, as the code has it. The key is the digest of the operation name followed by the
  \<^verbatim>\<open>repr\<close> of the sorted keyword pairs, so it does not depend on the order in which
  the keyword arguments are passed. \<^verbatim>\<open>research\<close> passes the query and the model only,
  \<^verbatim>\<open>search\<close> the query and the depth only: two requests of one operation that agree
  on these share the key, whatever their other parameters. The string that is hashed
  differs between the two operations, and between two requests of one operation that
  differ in the query or in the model (for \<^verbatim>\<open>search\<close>: in the query or in the
  validated depth), so such requests share a key only where the digest collides.
\<close>

theorem cache_key_order_stable:
  "(mset kwargs' = mset kwargs \<longrightarrow> cache_key h prefix kwargs' = cache_key h prefix kwargs)
   \<and> research_cache_key h r
       = h (''research:'' @ repr_items
           [(''model'', model_value (ResearchRequest.model r)), (''query'', ResearchRequest.query r)])
   \<and> search_cache_key h s
       = h (''search:'' @ repr_items
           [(''depth'', search_depth s), (''query'', SearchRequest.query s)])
   \<and> (ResearchRequest.query r1 = ResearchRequest.query r2
        \<and> ResearchRequest.model r1 = ResearchRequest.model r2 \<longrightarrow>
        research_cache_key h r1 = research_cache_key h r2)
   \<and> (SearchRequest.query s1 = SearchRequest.query s2 \<and> search_depth s1 = search_depth s2 \<longrightarrow>
        search_cache_key h s1 = search_cache_key h s2)
   \<and> (cache_key_data ''research''
          [(''query'', ResearchRequest.query r1), (''model'', model_value (ResearchRequest.model r1))]
        = cache_key_data ''research''
          [(''query'', ResearchRequest.query r2), (''model'', model_value (ResearchRequest.model r2))]
        \<longrightarrow> ResearchRequest.query r1 = ResearchRequest.query r2
            \<and> ResearchRequest.model r1 = ResearchRequest.model r2)
   \<and> ((search_depth s1 = ''basic'' \<or> search_depth s1 = ''advanced'')
        \<and> (search_depth s2 = ''basic'' \<or> search_depth s2 = ''advanced'')
        \<and> cache_key_data ''search''
            [(''query'', SearchRequest.query s1), (''depth'', search_depth s1)]
          = cache_key_data ''search''
            [(''query'', SearchRequest.query s2), (''depth'', search_depth s2)]
        \<longrightarrow> SearchRequest.query s1 = SearchRequest.query s2 \<and> search_depth s1 = search_depth s2)
   \<and> cache_key_data ''research'' kwargs \<noteq> cache_key_data ''search'' kwargs'"
proof (intro conjI impI)
  assume "mset kwargs' = mset kwargs"
  then show "cache_key h prefix kwargs' = cache_key h prefix kwargs"
    by (simp add: cache_key_def cache_key_data_def sort_permutation [of kwargs' kwargs])
next
  show "research_cache_key h r
       = h (''research:'' @ repr_items
           [(''model'', model_value (ResearchRequest.model r)), (''query'', ResearchRequest.query r)])"
    by (simp add: research_cache_key_def cache_key_def cache_key_data_def sorted_research_kwargs)
next
  show "search_cache_key h s
       = h (''search:'' @ repr_items
           [(''depth'', search_depth s), (''query'', SearchRequest.query s)])"
    by (simp add: search_cache_key_def cache_key_def cache_key_data_def sorted_search_kwargs)
next
  assume "ResearchRequest.query r1 = ResearchRequest.query r2
        \<and> ResearchRequest.model r1 = ResearchRequest.model r2"
  then show "research_cache_key h r1 = research_cache_key h r2"
    by (simp add: research_cache_key_def)
next
  assume "SearchRequest.query s1 = SearchRequest.query s2 \<and> search_depth s1 = search_depth s2"
  then show "search_cache_key h s1 = search_cache_key h s2"
    by (simp add: search_cache_key_def)
next
  assume a: "cache_key_data ''research''
          [(''query'', ResearchRequest.query r1), (''model'', model_value (ResearchRequest.model r1))]
        = cache_key_data ''research''
          [(''query'', ResearchRequest.query r2), (''model'', model_value (ResearchRequest.model r2))]"
  show "ResearchRequest.query r1 = ResearchRequest.query r2"
       "ResearchRequest.model r1 = ResearchRequest.model r2"
    using research_data_inj [OF a] by simp_all
next
  assume a: "(search_depth s1 = ''basic'' \<or> search_depth s1 = ''advanced'')
        \<and> (search_depth s2 = ''basic'' \<or> search_depth s2 = ''advanced'')
        \<and> cache_key_data ''search''
            [(''query'', SearchRequest.query s1), (''depth'', search_depth s1)]
          = cache_key_data ''search''
            [(''query'', SearchRequest.query s2), (''depth'', search_depth s2)]"
  show "SearchRequest.query s1 = SearchRequest.query s2" "search_depth s1 = search_depth s2"
    using search_data_inj [of "SearchRequest.query s1" "search_depth s1"
        "SearchRequest.query s2" "search_depth s2"] a
    by blast+
next
  show "cache_key_data ''research'' kwargs \<noteq> cache_key_data ''search'' kwargs'"
    by (rule operation_names_differ)
qed

theorem cache_key_order_stable_witness:
  "mset [(''model'', ''pro''), (''query'', ''x'')] = mset [(''query'', ''x''), (''model'', ''pro'')]
   \<and> cache_key id ''research'' [(''model'', ''pro''), (''query'', ''x'')]
       = cache_key id ''research'' [(''query'', ''x''), (''model'', ''pro'')]
   \<and> research_cache_key id (sample_request\<lparr>ResearchRequest.max_results := 20\<rparr>)
       = research_cache_key id sample_request
   \<and> search_cache_key id (sample_search_request\<lparr>include_raw_content := True\<rparr>)
       = search_cache_key id sample_search_request
   \<and> cache_key_data ''research'' [(''query'', ''y''), (''model'', ''pro'')]
       \<noteq> cache_key_data ''research'' [(''query'', ''x''), (''model'', ''pro'')]
   \<and> cache_key_data ''search'' [(''query'', ''x''), (''depth'', ''advanced'')]
       \<noteq> cache_key_data ''search'' [(''query'', ''x''), (''depth'', ''basic'')]"
  using cache_key_order_stable
    [where kwargs' = "[(''model'', ''pro''), (''query'', ''x'')]"
       and kwargs = "[(''query'', ''x''), (''model'', ''pro'')]" and h = id
       and prefix = "''research''"
       and ?r1.0 = "sample_request\<lparr>ResearchRequest.max_results := 20\<rparr>"
       and ?r2.0 = sample_request
       and ?s1.0 = "sample_search_request\<lparr>include_raw_content := True\<rparr>"
       and ?s2.0 = sample_search_request]
    cache_key_order_stable
    [where ?r1.0 = "sample_request\<lparr>ResearchRequest.query := ''y''\<rparr>"
       and ?r2.0 = sample_request
       and ?s1.0 = "sample_search_request\<lparr>search_depth := ''advanced''\<rparr>"
       and ?s2.0 = sample_search_request]
  by (simp add: sample_request_def sample_search_request_def)

text \<open>
  C9 as stated fails: requests whose parameters differ can map to one key. A
  \<^verbatim>\<open>research\<close> of \<^verbatim>\<open>x\<close> with 20 results and an include list has the key of the
  first \<^verbatim>\<open>research\<close> of \<^verbatim>\<open>x\<close> (10 results, no list), and is served its cached
  result.
\<close>

theorem cache_key_ignores_parameters_counterexample:
  "wider_request \<noteq> sample_request
   \<and> ResearchRequest_new ''x'' PRO 20 [''example.com''] []
       = Inr wider_request
   \<and> research_cache_key id
        wider_request
       = research_cache_key id sample_request
   \<and> fst (research id (clock_at 2) (every_attempt (Inl (OtherException ''unused''))) ''x'' PRO 20
         (Some [''example.com'']) None ''u1'' after_research)
       = Inr (mark_cached (ResearchPayload (research_result sample_request sample_research_data)))"
proof -
  have ne: "wider_request \<noteq> sample_request"
    by (simp add: wider_request_def sample_request_def)
  have new: "ResearchRequest_new ''x'' PRO 20 [''example.com''] [] = Inr wider_request"
    by (simp add: eval_request wider_request_def sample_request_def)
  have key: "research_cache_key id wider_request = research_cache_key id sample_request"
    by (simp add: research_cache_key_def wider_request_def sample_request_def)
  have req: "ResearchRequest_new ''x'' PRO 20 (or_empty (Some [''example.com''])) (or_empty None)
      = Inr wider_request"
    using new by (simp add: or_empty_def)
  have entry: "cache after_research (research_cache_key id wider_request)
      = Some \<lparr>data = ResearchPayload (research_result sample_request sample_research_data),
               ts = 1\<rparr>"
    by (simp add: key after_research_eq)
  have valid: "t_lookup (clock_at 2)
      - ts \<lparr>data = ResearchPayload (research_result sample_request sample_research_data),
             ts = 1\<rparr> < 3600"
    by (simp add: clock_at_def)
  have "fst (research id (clock_at 2) (every_attempt (Inl (OtherException ''unused''))) ''x'' PRO
      20 (Some [''example.com'']) None ''u1'' after_research)
      = Inr (mark_cached (ResearchPayload (research_result sample_request sample_research_data)))"
    using research_hit [OF req admitted_again entry valid,
        of "every_attempt (Inl (OtherException ''unused''))"]
    by simp
  with ne new key show ?thesis by blast
qed


end
